theory Spec2Isabelle
  imports Main "HOL-Library.AList" "HOL-Library.Char_ord" "HOL-Library.List_Lexorder"
    "HOL-Library.Multiset" "HOL-Library.Option_ord"
begin

section \<open>The store (utils/database.js)\<close>

text \<open>
  A timestamp is a number of seconds since the epoch, in UTC: SQLite's
  \<^verbatim>\<open>CURRENT_TIMESTAMP\<close> has a resolution of one second and is in UTC.
  A nullable TEXT or DATETIME column is an \<open>option\<close>. The store is a value that
  the operations take and return; its reads and writes always succeed (a failure of the
  database driver is not modelled).
\<close>

type_synonym timestamp = int

text \<open>One row of the table \<^verbatim>\<open>users\<close>, with every column of the schema.\<close>

record user =
  id_pk :: int
  bitrix_id :: string
  name :: "string option"
  first_name :: "string option"
  last_name :: "string option"
  email :: "string option"
  work_position :: "string option"
  department :: "string option"
  is_active :: bool
  last_greeting_sent :: "timestamp option"
  created_at :: timestamp
  updated_at :: timestamp

text \<open>
  One row of \<^verbatim>\<open>message_history\<close>, as \<^verbatim>\<open>saveMessageHistory\<close> fills it
  (the columns \<^verbatim>\<open>id\<close>, \<^verbatim>\<open>message_type\<close> and \<^verbatim>\<open>sent_at\<close> take
  their defaults and are left out).
\<close>

record history_row =
  user_id :: string
  message_text :: string
  status :: string
  error_message :: "string option"

record database =
  users :: "user list"
  message_history :: "history_row list"

text \<open>
  SQLite's \<^verbatim>\<open>DATE(x)\<close> without a modifier is the UTC calendar date of \<open>x\<close>,
  a text \<^verbatim>\<open>YYYY-MM-DD\<close>; two such texts compare as the days they name, so the
  date is modelled as the number of the day.
\<close>

definition sql_DATE :: "timestamp \<Rightarrow> int" where
  "sql_DATE t = t div 86400"

text \<open>
  \<^verbatim>\<open>getUsersForMorningGreeting\<close>: \<open>now\<close> is the instant \<^verbatim>\<open>new Date()\<close>
  reads; \<^verbatim>\<open>toISOString().split('T')[0]\<close> is its UTC date. \<^verbatim>\<open>ORDER BY name\<close>
  sorts by the column \<^verbatim>\<open>name\<close> in SQLite's BINARY collation (bytewise, NULL first),
  which is the order of \<open>string option\<close>.
\<close>

definition greeting_due :: "timestamp \<Rightarrow> user \<Rightarrow> bool" where
  "greeting_due now u \<longleftrightarrow>
     is_active u \<and>
     (case last_greeting_sent u of
        None \<Rightarrow> True
      | Some t \<Rightarrow> sql_DATE t < sql_DATE now)"

definition getUsersForMorningGreeting :: "timestamp \<Rightarrow> database \<Rightarrow> user list" where
  "getUsersForMorningGreeting now db = sort_key name (filter (greeting_due now) (users db))"

text \<open>\<^verbatim>\<open>getActiveUsersForGreeting\<close> (functions/users.js) passes the query's rows on.\<close>

definition getActiveUsersForGreeting :: "timestamp \<Rightarrow> database \<Rightarrow> user list" where
  "getActiveUsersForGreeting now db = getUsersForMorningGreeting now db"

text \<open>\<^verbatim>\<open>updateLastGreeting\<close>: \<open>now\<close> is the value of \<^verbatim>\<open>CURRENT_TIMESTAMP\<close>.\<close>

definition updateLastGreeting :: "timestamp \<Rightarrow> string \<Rightarrow> database \<Rightarrow> database" where
  "updateLastGreeting now userId db =
     db\<lparr>users := map (\<lambda>u. if bitrix_id u = userId
                              then u\<lparr>last_greeting_sent := Some now\<rparr> else u) (users db)\<rparr>"

definition saveMessageHistory ::
  "string \<Rightarrow> string \<Rightarrow> string \<Rightarrow> string option \<Rightarrow> database \<Rightarrow> database" where
  "saveMessageHistory userId messageText st errorMessage db =
     db\<lparr>message_history := message_history db @
          [\<lparr>user_id = userId, message_text = messageText, status = st,
            error_message = errorMessage\<rparr>]\<rparr>"

subsection \<open>Calendar dates in a time zone\<close>

text \<open>
  A time zone gives the offset from UTC, in seconds, in force at an instant (Europe/Moscow,
  the default of \<^verbatim>\<open>config.schedule.morningGreeting.timezone\<close>, is three hours ahead all
  year). The calendar date of an instant in a zone is the day of its local time.
\<close>

type_synonym zone = "timestamp \<Rightarrow> int"

definition UTC :: zone where
  "UTC = (\<lambda>_. 0)"

definition Europe_Moscow :: zone where
  "Europe_Moscow = (\<lambda>_. 10800)"

definition calendar_date :: "zone \<Rightarrow> timestamp \<Rightarrow> int" where
  "calendar_date z t = (t + z t) div 86400"

text \<open>The eligibility rule in the words of the specification, for a zone \<open>z\<close>.\<close>

definition spec_eligible :: "zone \<Rightarrow> timestamp \<Rightarrow> user \<Rightarrow> bool" where
  "spec_eligible z now u \<longleftrightarrow>
     is_active u \<and>
     (case last_greeting_sent u of
        None \<Rightarrow> True
      | Some t \<Rightarrow> calendar_date z t < calendar_date z now)"

section \<open>Texts\<close>

text \<open>
  A JavaScript string is modelled by its UTF-8 bytes. The texts of the source that are not
  ASCII are written in hexadecimal: \<open>utf8\<close> reads two hexadecimal digits per byte,
  \<open>nibble\<close> gives the four bits of a digit, the lowest first.
\<close>

definition nibble :: "char \<Rightarrow> bool \<times> bool \<times> bool \<times> bool" where
  "nibble c =
     (if c = CHR ''0'' then (False, False, False, False)
      else if c = CHR ''1'' then (True, False, False, False)
      else if c = CHR ''2'' then (False, True, False, False)
      else if c = CHR ''3'' then (True, True, False, False)
      else if c = CHR ''4'' then (False, False, True, False)
      else if c = CHR ''5'' then (True, False, True, False)
      else if c = CHR ''6'' then (False, True, True, False)
      else if c = CHR ''7'' then (True, True, True, False)
      else if c = CHR ''8'' then (False, False, False, True)
      else if c = CHR ''9'' then (True, False, False, True)
      else if c = CHR ''A'' then (False, True, False, True)
      else if c = CHR ''B'' then (True, True, False, True)
      else if c = CHR ''C'' then (False, False, True, True)
      else if c = CHR ''D'' then (True, False, True, True)
      else if c = CHR ''E'' then (False, True, True, True)
      else (True, True, True, True))"

fun utf8 :: "string \<Rightarrow> string" where
  "utf8 (a # b # cs) =
     (case (nibble b, nibble a) of
        ((b0, b1, b2, b3), (b4, b5, b6, b7)) \<Rightarrow> Char b0 b1 b2 b3 b4 b5 b6 b7) # utf8 cs"
| "utf8 _ = []"

text \<open>
  \<^verbatim>\<open>String.prototype.replace\<close> with a string pattern replaces the first occurrence
  of the pattern, if there is one. In the replacement text \<^verbatim>\<open>$$\<close> stands for a dollar
  sign, \<^verbatim>\<open>$&\<close> for the matched text, a dollar sign and a backquote for the text before
  the match, a dollar sign and a quote for the text after it; a string pattern has no
  groups, so every other dollar sign stands for itself.
\<close>

fun find_first :: "string \<Rightarrow> string \<Rightarrow> (string \<times> string) option" where
  "find_first pat [] = (if pat = [] then Some ([], []) else None)"
| "find_first pat (c # cs) =
     (if take (length pat) (c # cs) = pat then Some ([], drop (length pat) (c # cs))
      else map_option (\<lambda>(preceding, following). (c # preceding, following)) (find_first pat cs))"

fun get_substitution :: "string \<Rightarrow> string \<Rightarrow> string \<Rightarrow> string \<Rightarrow> string" where
  "get_substitution matched preceding following [] = []"
| "get_substitution matched preceding following [c] = [c]"
| "get_substitution matched preceding following (c # d # r) =
     (if c = CHR ''$'' \<and> d = CHR ''$'' then CHR ''$'' # get_substitution matched preceding following r
      else if c = CHR ''$'' \<and> d = CHR ''&'' then matched @ get_substitution matched preceding following r
      else if c = CHR ''$'' \<and> d = CHR 0x60 then preceding @ get_substitution matched preceding following r
      else if c = CHR ''$'' \<and> d = CHR 0x27 then following @ get_substitution matched preceding following r
      else c # get_substitution matched preceding following (d # r))"

definition js_replace :: "string \<Rightarrow> string \<Rightarrow> string \<Rightarrow> string" where
  "js_replace s pat replacement =
     (case find_first pat s of
        None \<Rightarrow> s
      | Some (preceding, following) \<Rightarrow> preceding @ get_substitution pat preceding following replacement @ following)"

text \<open>\<^verbatim>\<open>String(n)\<close> for a natural number, and \<^verbatim>\<open>padStart(2, '0')\<close>.\<close>

fun js_String :: "nat \<Rightarrow> string" where
  "js_String n =
     (if n < 10 then [''0123456789'' ! n]
      else js_String (n div 10) @ [''0123456789'' ! (n mod 10)])"

definition padStart2 :: "string \<Rightarrow> string" where
  "padStart2 s = replicate (2 - length s) (CHR ''0'') @ s"

text \<open>A JavaScript value that is \<^verbatim>\<open>null\<close> or the empty string is falsy.\<close>

definition truthy :: "string option \<Rightarrow> bool" where
  "truthy v \<longleftrightarrow> (case v of None \<Rightarrow> False | Some s \<Rightarrow> s \<noteq> [])"

section \<open>Configuration (utils/config.js)\<close>

text \<open>The three tables of \<^verbatim>\<open>config.messages\<close>, entry by entry.\<close>

definition config_greetings :: "string list" where
  "config_greetings =
     [utf8 ''F09F8C9E20D094D0BED0B1D180D0BED0B520D183D182D180D0BE2C20'' @ ''{name}''
       @ utf8 ''2120D096D0B5D0BBD0B0D18E20D0B2D0B0D0BC20D0BFD180D0BED0B4D183D0BAD182D0B8''
       @ utf8 ''D0B2D0BDD0BED0B3D0BE20D0B4D0BDD18F21'',
      utf8 ''E29880EFB88F20D09FD180D0B8D0B2D0B5D1822C20'' @ ''{name}''
       @ utf8 ''2120D09FD183D181D182D18C20D18DD182D0BED18220D0B4D0B5D0BDD18C20D0BFD180D0''
       @ utf8 ''B8D0BDD0B5D181D0B5D18220D182D0BED0BBD18CD0BAD0BE20D185D0BED180D0BED188D0''
       @ utf8 ''B5D0B521'',
      utf8 ''F09F8C8520D0A120D0B4D0BED0B1D180D18BD0BC20D183D182D180D0BED0BC2C20''
       @ ''{name}''
       @ utf8 ''2120D09ED182D0BBD0B8D187D0BDD0BED0B3D0BE20D0BDD0B0D181D182D180D0BED0B5D0''
       @ utf8 ''BDD0B8D18F20D0B820D183D181D0BFD0B5D185D0BED0B220D0B220D180D0B0D0B1D0BED1''
       @ utf8 ''82D0B521'',
      utf8 ''F09F92AB20D094D0BED0B1D180D18BD0B920D0B4D0B5D0BDD18C2C20'' @ ''{name}''
       @ utf8 ''2120D09DD0B0D187D0B8D0BDD0B0D0B5D0BC20D0B4D0B5D0BDD18C20D18120D0BFD0BED0''
       @ utf8 ''B7D0B8D182D0B8D0B2D0B021'',
      utf8 ''F09F8C8820D09FD180D0B8D0B2D0B5D182D181D182D0B2D183D18E2C20'' @ ''{name}''
       @ utf8 ''2120D09FD183D181D182D18C20D0B4D0B5D0BDD18C20D0B1D183D0B4D0B5D18220D18FD1''
       @ utf8 ''80D0BAD0B8D0BC20D0B820D183D181D0BFD0B5D188D0BDD18BD0BC21'',
      utf8 ''F09F8CB820D094D0BED0B1D180D0BED0B520D183D182D180D0BE2C20'' @ ''{name}''
       @ utf8 ''2120D0A5D0BED180D0BED188D0B5D0B3D0BE20D0B4D0BDD18F20D0B820D0BED182D0BBD0''
       @ utf8 ''B8D187D0BDD18BD18520D180D0B5D0B7D183D0BBD18CD182D0B0D182D0BED0B221'',
      utf8 ''E2AD9020D09FD180D0B8D0B2D0B5D1822C20'' @ ''{name}''
       @ utf8 ''2120D09DD0BED0B2D18BD0B920D0B4D0B5D0BDD18C202D20D0BDD0BED0B2D18BD0B520D0''
       @ utf8 ''B2D0BED0B7D0BCD0BED0B6D0BDD0BED181D182D0B821'',
      utf8 ''F09F8EAF20D0A120D0B4D0BED0B1D180D18BD0BC20D183D182D180D0BED0BC2C20''
       @ ''{name}''
       @ utf8 ''2120D09FD183D181D182D18C20D0B2D181D0B520D0B7D0B0D0B4D0B0D187D0B820D180D0''
       @ utf8 ''B5D188D0B0D18ED182D181D18F20D0BBD0B5D0B3D0BAD0BE21'',
      utf8 ''F09F9A8020D094D0BED0B1D180D0BED0B520D183D182D180D0BE2C20'' @ ''{name}''
       @ utf8 ''2120D0ADD0BDD0B5D180D0B3D0B8D0B820D0B820D0B2D0B4D0BED185D0BDD0BED0B2D0B5''
       @ utf8 ''D0BDD0B8D18F20D0BDD0B020D0B2D0B5D181D18C20D0B4D0B5D0BDD18C21'',
      utf8 ''E2989520D09FD180D0B8D0B2D0B5D1822C20'' @ ''{name}''
       @ utf8 ''2120D09DD0B0D187D0BDD191D0BC20D0B4D0B5D0BDD18C20D18120D183D0BBD18BD0B1D0''
       @ utf8 ''BAD0B820D0B820D187D0B0D188D0BAD0B820D0BAD0BED184D0B521'']"

definition config_tips :: "string list" where
  "config_tips =
     [''[b]'' @ utf8 ''F09F92A120D0A1D0BED0B2D0B5D18220D0B4D0BDD18F3A'' @ ''[/b]''
       @ utf8 ''0AD09DD0B0D187D0BDD0B8D182D0B520D0B4D0B5D0BDD18C20D18120D181D0B0D0BCD0BE''
       @ utf8 ''D0B920D0B2D0B0D0B6D0BDD0BED0B920D0B7D0B0D0B4D0B0D187D0B8202D20D18DD182D0''
       @ utf8 ''BE20D0BFD0BED0B2D18BD181D0B8D18220D0B2D0B0D188D18320D0BFD180D0BED0B4D183''
       @ utf8 ''D0BAD182D0B8D0B2D0BDD0BED181D182D18C21'',
      ''[b]'' @ utf8 ''F09F92A120D0A1D0BED0B2D0B5D18220D0B4D0BDD18F3A'' @ ''[/b]''
       @ utf8 ''0AD09DD0B520D0B7D0B0D0B1D183D0B4D18CD182D0B520D181D0B4D0B5D0BBD0B0D182D1''
       @ utf8 ''8C20D0BAD0BED180D0BED182D0BAD0B8D0B520D0BFD0B5D180D0B5D180D18BD0B2D18B20''
       @ utf8 ''D0BCD0B5D0B6D0B4D18320D0B7D0B0D0B4D0B0D187D0B0D0BCD0B820D0B4D0BBD18F20D0''
       @ utf8 ''B2D0BED181D181D182D0B0D0BDD0BED0B2D0BBD0B5D0BDD0B8D18F20D18DD0BDD0B5D180''
       @ utf8 ''D0B3D0B8D0B82E'',
      ''[b]'' @ utf8 ''F09F92A120D0A1D0BED0B2D0B5D18220D0B4D0BDD18F3A'' @ ''[/b]''
       @ utf8 ''0AD0A1D0BED181D182D0B0D0B2D18CD182D0B520D181D0BFD0B8D181D0BED0BA20D0B8D0''
       @ utf8 ''B7203320D0B3D0BBD0B0D0B2D0BDD18BD18520D186D0B5D0BBD0B5D0B920D0BDD0B020D0''
       @ utf8 ''B4D0B5D0BDD18C202D20D18DD182D0BE20D0BFD0BED0BCD0BED0B6D0B5D18220D181D184''
       @ utf8 ''D0BED0BAD183D181D0B8D180D0BED0B2D0B0D182D18CD181D18F2E'',
      ''[b]'' @ utf8 ''F09F92A120D0A1D0BED0B2D0B5D18220D0B4D0BDD18F3A'' @ ''[/b]''
       @ utf8 ''0AD092D18BD0BFD0B5D0B9D182D0B520D181D182D0B0D0BAD0B0D0BD20D0B2D0BED0B4D1''
       @ utf8 ''8B20D0BFD180D18FD0BCD0BE20D181D0B5D0B9D187D0B0D181202D20D0B3D0B8D0B4D180''
       @ utf8 ''D0B0D182D0B0D186D0B8D18F20D0B2D0B0D0B6D0BDD0B020D0B4D0BBD18F20D0BFD180D0''
       @ utf8 ''BED0B4D183D0BAD182D0B8D0B2D0BDD0BED181D182D0B821'',
      ''[b]'' @ utf8 ''F09F92A120D0A1D0BED0B2D0B5D18220D0B4D0BDD18F3A'' @ ''[/b]''
       @ utf8 ''0AD0A3D0B4D0B5D0BBD0B8D182D0B5203520D0BCD0B8D0BDD183D18220D0BFD0BBD0B0D0''
       @ utf8 ''BDD0B8D180D0BED0B2D0B0D0BDD0B8D18E20D0B4D0BDD18F202D20D18DD182D0BE20D181''
       @ utf8 ''D18DD0BAD0BED0BDD0BED0BCD0B8D18220D187D0B0D181D18B20D180D0B0D0B1D0BED182''
       @ utf8 ''D18B2E'',
      ''[b]'' @ utf8 ''F09F92A120D0A1D0BED0B2D0B5D18220D0B4D0BDD18F3A'' @ ''[/b]''
       @ utf8 ''0AD09FD0BED0BCD0BDD0B8D182D0B520D0BE20D0BFD180D0B0D0B2D0B8D0BBD0B5203220''
       @ utf8 ''D0BCD0B8D0BDD183D1823A20D0B5D181D0BBD0B820D0B7D0B0D0B4D0B0D187D0B020D0B7''
       @ utf8 ''D0B0D0BDD0B8D0BCD0B0D0B5D18220D0BCD0B5D0BDD18CD188D0B5203220D0BCD0B8D0BD''
       @ utf8 ''D183D182202D20D181D0B4D0B5D0BBD0B0D0B9D182D0B520D0B5D19120D181D180D0B0D0''
       @ utf8 ''B7D18321'',
      ''[b]'' @ utf8 ''F09F92A120D0A1D0BED0B2D0B5D18220D0B4D0BDD18F3A'' @ ''[/b]''
       @ utf8 ''0AD098D181D0BFD0BED0BBD18CD0B7D183D0B9D182D0B520D182D0B5D185D0BDD0B8D0BA''
       @ utf8 ''D18320'' @ ''Pomodoro''
       @ utf8 ''3A20323520D0BCD0B8D0BDD183D18220D180D0B0D0B1D0BED182D18B2C203520D0BCD0B8''
       @ utf8 ''D0BDD183D18220D0BED182D0B4D18BD185D0B02E'',
      ''[b]'' @ utf8 ''F09F92A120D0A1D0BED0B2D0B5D18220D0B4D0BDD18F3A'' @ ''[/b]''
       @ utf8 ''0AD09DD0B0D187D0BDD0B8D182D0B520D0B4D0B5D0BDD18C20D18120D0B1D0BBD0B0D0B3''
       @ utf8 ''D0BED0B4D0B0D180D0BDD0BED181D182D0B8202D20D18DD182D0BE20D0BDD0B0D181D182''
       @ utf8 ''D180D0BED0B8D18220D0BDD0B020D0BFD0BED0B7D0B8D182D0B8D0B2D0BDD18BD0B920D0''
       @ utf8 ''BBD0B0D0B42E'',
      ''[b]'' @ utf8 ''F09F92A120D0A1D0BED0B2D0B5D18220D0B4D0BDD18F3A'' @ ''[/b]''
       @ utf8 ''0AD09ED182D0BAD0BBD18ED187D0B8D182D0B520D183D0B2D0B5D0B4D0BED0BCD0BBD0B5''
       @ utf8 ''D0BDD0B8D18F20D0BDD0B020D0B2D180D0B5D0BCD18F20D0B2D0B0D0B6D0BDD0BED0B920''
       @ utf8 ''D180D0B0D0B1D0BED182D18B202D20D184D0BED0BAD183D18120D0BFD180D0B5D0B2D18B''
       @ utf8 ''D188D0B520D0B2D181D0B5D0B3D0BE21'',
      ''[b]'' @ utf8 ''F09F92A120D0A1D0BED0B2D0B5D18220D0B4D0BDD18F3A'' @ ''[/b]''
       @ utf8 ''0AD0A1D0B4D0B5D0BBD0B0D0B9D182D0B520D0BDD0B5D181D0BAD0BED0BBD18CD0BAD0BE''
       @ utf8 ''20D0B3D0BBD183D0B1D0BED0BAD0B8D18520D0B2D0B4D0BED185D0BED0B2202D20D18DD1''
       @ utf8 ''82D0BE20D0BFD0BED0BCD0BED0B6D0B5D18220D181D0BED181D180D0B5D0B4D0BED182D0''
       @ utf8 ''BED187D0B8D182D18CD181D18F2E'']"

definition config_holidays :: "(string \<times> string) list" where
  "config_holidays =
     [(''01-01'', utf8 ''F09F8E8420D0A120D09DD0BED0B2D18BD0BC20D0B3D0BED0B4D0BED0BC2C20'' @ ''{name}''
        @ utf8 ''2120D09FD183D181D182D18C20D18DD182D0BED18220D0B3D0BED0B420D0B1D183D0B4D0''
        @ utf8 ''B5D18220D0BFD0BED0BBD0BED0BD20D183D181D0BFD0B5D185D0BED0B221''),
      (''23-02'', utf8 ''F09F8E96EFB88F20D0A120D094D0BDD191D0BC20D0B7D0B0D189D0B8D182D0BDD0B8D0BA''
        @ utf8 ''D0B020D09ED182D0B5D187D0B5D181D182D0B2D0B02C20'' @ ''{name}'' @ utf8 ''21''),
      (''08-03'', utf8 ''F09F8CB720D0A120D09CD0B5D0B6D0B4D183D0BDD0B0D180D0BED0B4D0BDD18BD0BC20D0''
        @ utf8 ''B6D0B5D0BDD181D0BAD0B8D0BC20D0B4D0BDD191D0BC2C20'' @ ''{name}'' @ utf8 ''21''),
      (''01-05'', utf8 ''F09F8CBA20D0A120D0BFD180D0B0D0B7D0B4D0BDD0B8D0BAD0BED0BC20D092D0B5D181D0''
        @ utf8 ''BDD18B20D0B820D0A2D180D183D0B4D0B02C20'' @ ''{name}'' @ utf8 ''21''),
      (''09-05'', utf8 ''F09F8E97EFB88F20D0A120D094D0BDD191D0BC20D09FD0BED0B1D0B5D0B4D18B2C20''
        @ ''{name}'' @ utf8 ''21''),
      (''12-06'', utf8 ''F09F87B7F09F87BA20D0A120D094D0BDD191D0BC20D0A0D0BED181D181D0B8D0B82C20''
        @ ''{name}'' @ utf8 ''21''),
      (''04-11'', utf8 ''F09FA49D20D0A120D094D0BDD191D0BC20D0BDD0B0D180D0BED0B4D0BDD0BED0B3D0BE20''
        @ utf8 ''D0B5D0B4D0B8D0BDD181D182D0B2D0B02C20'' @ ''{name}'' @ utf8 ''21'')]"

text \<open>
  \<^verbatim>\<open>config.bot\<close>: each value is \<^verbatim>\<open>parseInt\<close> of an environment variable, or the
  default when that is \<^verbatim>\<open>NaN\<close> or zero. It is an integer other than zero; nothing
  makes it positive.
\<close>

record bot_config =
  maxUsersPerBatch :: int
  delayBetweenMessages :: int

definition default_bot_config :: bot_config where
  "default_bot_config = \<lparr>maxUsersPerBatch = 10, delayBetweenMessages = 1000\<rparr>"

section \<open>The Message Composer (functions/greetings.js)\<close>

text \<open>
  \<^verbatim>\<open>generateGreeting\<close> reads the clock and draws two random numbers. Its model takes
  them as arguments: \<open>getMonth\<close> and \<open>getDate\<close> are those of \<^verbatim>\<open>new Date()\<close>
  (January is month 0), and \<open>g\<close> and \<open>t\<close> are the two values of
  \<^verbatim>\<open>Math.floor(Math.random() * length)\<close>, each below the length of its table.
\<close>

record today =
  getMonth :: nat
  getDate :: nat

definition monthDay :: "today \<Rightarrow> string" where
  "monthDay d = padStart2 (js_String (getMonth d + 1)) @ ''-'' @ padStart2 (js_String (getDate d))"

definition generateGreeting :: "today \<Rightarrow> nat \<Rightarrow> nat \<Rightarrow> string \<Rightarrow> string" where
  "generateGreeting d g t userName =
     (if truthy (map_of config_holidays (monthDay d))
      then js_replace (the (map_of config_holidays (monthDay d))) ''{name}'' userName
      else
        let randomGreeting = config_greetings ! g;
            randomTip = config_tips ! t;
            greeting = js_replace randomGreeting ''{name}'' userName
        in greeting @ ''\<newline>\<newline>'' @ randomTip)"

record button =
  TEXT :: string
  COMMAND :: string
  COMMAND_PARAMS :: string
  BG_COLOR :: string
  TEXT_COLOR :: string

definition generateKeyboard :: "button list list" where
  "generateKeyboard =
     [[\<lparr>TEXT = utf8 ''F09F918D20D0A1D0BFD0B0D181D0B8D0B1D0BE21'',
        COMMAND = ''thanks'', COMMAND_PARAMS = ''morning'',
        BG_COLOR = ''#29619b'', TEXT_COLOR = ''#ffffff''\<rparr>,
       \<lparr>TEXT = utf8 ''F09F938520D09CD0BED0B820D0B7D0B0D0B4D0B0D187D0B8'',
        COMMAND = ''tasks'', COMMAND_PARAMS = ''today'',
        BG_COLOR = ''#2a9b05'', TEXT_COLOR = ''#ffffff''\<rparr>],
      [\<lparr>TEXT = utf8 ''E29D9320D09FD0BED0BCD0BED189D18C'',
        COMMAND = ''help'', COMMAND_PARAMS = '''',
        BG_COLOR = ''#555555'', TEXT_COLOR = ''#ffffff''\<rparr>]]"

section \<open>The Delivery Channel (functions/bot.js)\<close>

text \<open>
  The bot object. \<open>botId\<close> is \<open>None\<close> when the field is \<^verbatim>\<open>null\<close>; the
  program only ever stores a truthy id in it. \<^verbatim>\<open>initialize\<close> connects to the
  platform and loads the bot's id from the store or the configuration; what it finds
  there is an input of the model: \<open>Inl m\<close> when the connection throws an error with
  message \<open>m\<close>, \<open>Inr i\<close> when \<^verbatim>\<open>loadBotId\<close> found the id \<open>i\<close> (or none, and
  then the field stays as it was).
\<close>

record bitrix_bot =
  botId :: "string option"
  isInitialized :: bool

definition initialize :: "string + string option \<Rightarrow> bitrix_bot \<Rightarrow> string + bitrix_bot" where
  "initialize connect b =
     (if isInitialized b then Inr b
      else case connect of
        Inl m \<Rightarrow> Inl m
      | Inr loaded \<Rightarrow>
          Inr (b\<lparr>botId := (case loaded of Some i \<Rightarrow> Some i | None \<Rightarrow> botId b),
                 isInitialized := True\<rparr>))"

text \<open>
  What the platform answers to one \<^verbatim>\<open>imbot.message.add\<close>: a message id, a result
  whose data is falsy, or an error with a message.
\<close>

datatype call_result = MessageId | NoMessageId | Rejects string

text \<open>What a run does that is not a write to the store, in the order it does it.\<close>

datatype event =
    LogBatch int int
  | MessageAdd string string "button list list"
  | Sleep int

record world =
  db :: database
  the_bot :: bitrix_bot
  trace :: "event list"

definition emit :: "event \<Rightarrow> world \<Rightarrow> world" where
  "emit e w = w\<lparr>trace := trace w @ [e]\<rparr>"

definition bot_not_initialized :: string where
  "bot_not_initialized =
     utf8 ''D091D0BED18220D0BDD0B520D0B8D0BDD0B8D186D0B8D0B0D0BBD0B8D0B7D0B8D180D0BE''
       @ utf8 ''D0B2D0B0D0BD2E20494420D0B1D0BED182D0B020D0BED182D181D183D182D181D182D0B2''
       @ utf8 ''D183D0B5D1822E''"

text \<open>
  \<^verbatim>\<open>sendMessage\<close>: \<open>Inl m\<close> is an error thrown with message \<open>m\<close>. When the
  result carries no message id, the function writes nothing and returns without an error.
\<close>

definition sendMessage ::
  "call_result \<Rightarrow> string \<Rightarrow> string \<Rightarrow> button list list \<Rightarrow> world \<Rightarrow> (string + unit) \<times> world" where
  "sendMessage answer userId message keyboard w =
     (if botId (the_bot w) = None then (Inl bot_not_initialized, w)
      else
        let w1 = emit (MessageAdd userId message keyboard) w in
        case answer of
          MessageId \<Rightarrow> (Inr (), w1\<lparr>db := saveMessageHistory userId message ''sent'' None (db w1)\<rparr>)
        | NoMessageId \<Rightarrow> (Inr (), w1)
        | Rejects m \<Rightarrow>
            (Inl m, w1\<lparr>db := saveMessageHistory userId message ''error'' (Some m) (db w1)\<rparr>))"

section \<open>The Batch Dispatcher (functions/greetings.js)\<close>

text \<open>What the world gives to one call of \<^verbatim>\<open>sendGreetingToUser\<close>.\<close>

record step_env =
  clock :: today
  greeting_draw :: nat
  tip_draw :: nat
  answer :: call_result
  update_time :: timestamp

record detail =
  success :: bool
  userId :: string
  error :: "string option"

definition default_user_name :: string where
  "default_user_name = utf8 ''D09AD0BED0BBD0BBD0B5D0B3D0B0''"

definition display_name :: "user \<Rightarrow> string" where
  "display_name u =
     (if truthy (name u) then the (name u)
      else if truthy (first_name u) then the (first_name u)
      else default_user_name)"

definition sendGreetingToUser :: "step_env \<Rightarrow> user \<Rightarrow> world \<Rightarrow> detail \<times> world" where
  "sendGreetingToUser e u w =
     (let userName = display_name u;
          message = generateGreeting (clock e) (greeting_draw e) (tip_draw e) userName;
          keyboard = generateKeyboard
      in case sendMessage (answer e) (bitrix_id u) message keyboard w of
           (Inl m, w1) \<Rightarrow> (\<lparr>success = False, userId = bitrix_id u, error = Some m\<rparr>, w1)
         | (Inr _, w1) \<Rightarrow>
             (\<lparr>success = True, userId = bitrix_id u, error = None\<rparr>,
              w1\<lparr>db := updateLastGreeting (update_time e) (bitrix_id u) (db w1)\<rparr>))"

text \<open>
  The object a run returns. The early return for an empty list has no field
  \<^verbatim>\<open>details\<close>: it is \<open>None\<close> there.
\<close>

record results =
  total_count :: nat
  sent :: nat
  errors :: nat
  details :: "detail list option"

definition attempts :: "results \<Rightarrow> nat" where
  "attempts r = (case details r of None \<Rightarrow> 0 | Some ds \<Rightarrow> length ds)"

text \<open>
  One turn of the inner loop. The \<open>k\<close>-th call of \<^verbatim>\<open>sendGreetingToUser\<close> in a run
  (counting from 0) gets \<open>env k\<close>.
\<close>

definition process_user ::
  "bot_config \<Rightarrow> (nat \<Rightarrow> step_env) \<Rightarrow> user \<Rightarrow> results \<times> world \<Rightarrow> results \<times> world" where
  "process_user cfg env u st =
     (let (r, w) = st;
          (result, w1) = sendGreetingToUser (env (attempts r)) u w;
          r1 = r\<lparr>details := map_option (\<lambda>ds. ds @ [result]) (details r)\<rparr>;
          r2 = (if success result then r1\<lparr>sent := sent r1 + 1\<rparr> else r1\<lparr>errors := errors r1 + 1\<rparr>);
          w2 = (if delayBetweenMessages cfg > 0 then emit (Sleep (delayBetweenMessages cfg)) w1
                else w1)
      in (r2, w2))"

fun process_batch ::
  "bot_config \<Rightarrow> (nat \<Rightarrow> step_env) \<Rightarrow> user list \<Rightarrow> results \<times> world \<Rightarrow> results \<times> world" where
  "process_batch cfg env [] st = st"
| "process_batch cfg env (u # batch) st = process_batch cfg env batch (process_user cfg env u st)"

text \<open>\<^verbatim>\<open>Array.prototype.slice(start, end)\<close>: a negative index counts from the end.\<close>

definition js_slice :: "'a list \<Rightarrow> int \<Rightarrow> int \<Rightarrow> 'a list" where
  "js_slice xs s e =
     (let n = int (length xs);
          k = (if s < 0 then max (n + s) 0 else min s n);
          final = (if e < 0 then max (n + e) 0 else min e n)
      in take (nat (final - k)) (drop (nat k) xs))"

text \<open>
  The outer loop, from \<^verbatim>\<open>i\<close>. With a batch size below zero it never ends: the
  result is \<open>None\<close> then.
\<close>

partial_function (option) batches ::
  "bot_config \<Rightarrow> (nat \<Rightarrow> step_env) \<Rightarrow> user list \<Rightarrow> int \<Rightarrow> results \<times> world \<Rightarrow> (results \<times> world) option"
where
  "batches cfg env us i st =
     (if i < int (length us) then
        let batchSize = maxUsersPerBatch cfg;
            batch = js_slice us i (i + batchSize);
            logged = (fst st, emit (LogBatch (i div batchSize + 1)
                                      (- ((- int (length us)) div batchSize))) (snd st));
            st1 = process_batch cfg env batch logged;
            st2 = (if i + batchSize < int (length us)
                   then (fst st1, emit (Sleep (delayBetweenMessages cfg * 2)) (snd st1))
                   else st1)
        in batches cfg env us (i + batchSize) st2
      else Some st)"

text \<open>
  \<^verbatim>\<open>saveGreetingStats\<close>: one row for every failed detail whose error message is
  truthy.
\<close>

fun save_details :: "detail list \<Rightarrow> database \<Rightarrow> database" where
  "save_details [] d = d"
| "save_details (x # xs) d =
     save_details xs
       (if \<not> success x \<and> truthy (error x)
        then saveMessageHistory (userId x) ''Morning greeting'' ''error'' (error x) d
        else d)"

definition saveGreetingStats :: "results \<Rightarrow> world \<Rightarrow> world" where
  "saveGreetingStats r w =
     w\<lparr>db := save_details (case details r of None \<Rightarrow> [] | Some ds \<Rightarrow> ds) (db w)\<rparr>"

definition bot_not_registered :: string where
  "bot_not_registered =
     utf8 ''D091D0BED18220D0BDD0B520D0B7D0B0D180D0B5D0B3D0B8D181D182D180D0B8D180D0BE''
       @ utf8 ''D0B2D0B0D0BD2E20D09DD0B5D0BED0B1D185D0BED0B4D0B8D0BCD0B020D180D0B5D0B3D0''
       @ utf8 ''B8D181D182D180D0B0D186D0B8D18F20D0B1D0BED182D0B02E''"

text \<open>What the world gives to one run of \<^verbatim>\<open>sendMorningGreetings\<close>.\<close>

record run_env =
  connect :: "string + string option"
  query_time :: timestamp
  steps :: "nat \<Rightarrow> step_env"

text \<open>
  \<^verbatim>\<open>sendMorningGreetings\<close>: \<open>Some (Inl m, w)\<close> when it throws an error with
  message \<open>m\<close>, \<open>Some (Inr r, w)\<close> when it returns \<open>r\<close>, \<open>None\<close> when it does
  not return.
\<close>

definition sendMorningGreetings ::
  "bot_config \<Rightarrow> run_env \<Rightarrow> world \<Rightarrow> ((string + results) \<times> world) option" where
  "sendMorningGreetings cfg env w =
     (case initialize (connect env) (the_bot w) of
        Inl m \<Rightarrow> Some (Inl m, w)
      | Inr b \<Rightarrow>
          let w0 = w\<lparr>the_bot := b\<rparr> in
          if botId b = None then Some (Inl bot_not_registered, w0)
          else
            let us = getActiveUsersForGreeting (query_time env) (db w0) in
            if length us = 0
            then Some (Inr \<lparr>total_count = 0, sent = 0, errors = 0, details = None\<rparr>, w0)
            else
              (case batches cfg (steps env) us 0
                      (\<lparr>total_count = length us, sent = 0, errors = 0, details = Some []\<rparr>, w0) of
                 None \<Rightarrow> None
               | Some (r, w1) \<Rightarrow> Some (Inr r, saveGreetingStats r w1)))"

section \<open>The Trigger Scheduler (utils/scheduler.js)\<close>

text \<open>
  A task object of the cron library, as the scheduler uses it: \<^verbatim>\<open>cron.schedule\<close>
  with \<^verbatim>\<open>scheduled: true\<close> makes a new task that is running, \<^verbatim>\<open>stop()\<close> ends
  its firings. The task objects live in a list and are known by their position in it.
  \<open>registered_as\<close> is the name a task was scheduled under; the program does not store
  it in the task, the model keeps it to say which name a task belongs to.
\<close>

record 'h task =
  expression :: string
  handler :: 'h
  running :: bool
  registered_as :: string

text \<open>
  The scheduler: \<open>jobs\<close> is the \<^verbatim>\<open>Map\<close> from names to tasks, in insertion order.
\<close>

record 'h scheduler =
  jobs :: "(string \<times> nat) list"
  isRunning :: bool
  tasks :: "'h task list"

definition new_scheduler :: "'h scheduler" where
  "new_scheduler = \<lparr>jobs = [], isRunning = False, tasks = []\<rparr>"

definition stop_task :: "nat \<Rightarrow> 'h task list \<Rightarrow> 'h task list" where
  "stop_task j ts = (if j < length ts then ts[j := (ts ! j)\<lparr>running := False\<rparr>] else ts)"

text \<open>
  \<^verbatim>\<open>scheduleJob\<close>. The cron library is not part of the repository: whether
  \<^verbatim>\<open>cron.schedule\<close> takes an expression or throws is the parameter \<open>accepts\<close>.
  The result is \<open>False\<close> when it throws; the error leaves \<^verbatim>\<open>scheduleJob\<close> after
  the previous task was stopped and before the map is written.
\<close>

definition scheduleJob ::
  "(string \<Rightarrow> bool) \<Rightarrow> string \<Rightarrow> string \<Rightarrow> 'h \<Rightarrow> 'h scheduler \<Rightarrow> bool \<times> 'h scheduler" where
  "scheduleJob accepts nm cronExpression h s =
     (let s1 = (case map_of (jobs s) nm of
                  Some j \<Rightarrow> s\<lparr>tasks := stop_task j (tasks s)\<rparr>
                | None \<Rightarrow> s)
      in if \<not> accepts cronExpression then (False, s1)
         else (True,
               s1\<lparr>tasks := tasks s1 @
                      [\<lparr>expression = cronExpression, handler = h, running = True,
                        registered_as = nm\<rparr>],
                  jobs := AList.update nm (length (tasks s1)) (jobs s1)\<rparr>))"

definition stopJob :: "string \<Rightarrow> 'h scheduler \<Rightarrow> 'h scheduler" where
  "stopJob nm s =
     (case map_of (jobs s) nm of
        Some j \<Rightarrow> s\<lparr>tasks := stop_task j (tasks s), jobs := AList.delete nm (jobs s)\<rparr>
      | None \<Rightarrow> s)"

definition stopAll :: "'h scheduler \<Rightarrow> 'h scheduler" where
  "stopAll s =
     s\<lparr>tasks := fold (\<lambda>(nm, j). stop_task j) (jobs s) (tasks s), jobs := [],
       isRunning := False\<rparr>"

text \<open>\<^verbatim>\<open>runJob\<close> runs the handler of the named task at once: the handlers it calls.\<close>

definition runJob :: "string \<Rightarrow> 'h scheduler \<Rightarrow> 'h list" where
  "runJob nm s =
     (case map_of (jobs s) nm of
        Some j \<Rightarrow> (if j < length (tasks s) then [handler (tasks s ! j)] else [])
      | None \<Rightarrow> [])"

text \<open>
  The tasks of a name that are live, by position, and what an occurrence fires: at an
  instant that the expressions in \<open>due\<close> match, every running task with such an
  expression calls its handler once.
\<close>

definition live_triggers :: "'h scheduler \<Rightarrow> string \<Rightarrow> nat list" where
  "live_triggers s nm =
     filter (\<lambda>j. running (tasks s ! j) \<and> registered_as (tasks s ! j) = nm)
       [0..<length (tasks s)]"

definition fire :: "(string \<Rightarrow> bool) \<Rightarrow> 'h scheduler \<Rightarrow> (string \<times> 'h) list" where
  "fire due s =
     map (\<lambda>t. (registered_as t, handler t))
       (filter (\<lambda>t. running t \<and> due (expression t)) (tasks s))"

text \<open>The states the scheduler can be in: from a new one, by its operations.\<close>

inductive reachable :: "(string \<Rightarrow> bool) \<Rightarrow> 'h scheduler \<Rightarrow> bool"
  for accepts :: "string \<Rightarrow> bool" where
  new: "reachable accepts new_scheduler"
| schedule: "reachable accepts s \<Longrightarrow> reachable accepts (snd (scheduleJob accepts nm e h s))"
| stop: "reachable accepts s \<Longrightarrow> reachable accepts (stopJob nm s)"
| stop_all: "reachable accepts s \<Longrightarrow> reachable accepts (stopAll s)"
| started: "reachable accepts s \<Longrightarrow> reachable accepts (s\<lparr>isRunning := True\<rparr>)"

section \<open>Vocabulary of the statements\<close>

text \<open>
  What one attempt and one run do, in closed form; the lemmas below relate these to the
  functions of the program.

  A delivery fails when the send throws: the platform rejected the message. A result
  without a message id is no failure for the program.
\<close>

definition delivery_fails :: "step_env \<Rightarrow> bool" where
  "delivery_fails e \<longleftrightarrow> (case answer e of Rejects m \<Rightarrow> True | _ \<Rightarrow> False)"

text \<open>The outcome sequence of a returned object, empty when the object has none.\<close>

definition outcomes :: "results \<Rightarrow> detail list" where
  "outcomes r = (case details r of None \<Rightarrow> [] | Some ds \<Rightarrow> ds)"

text \<open>The recipients of the messages handed to the platform, in order.\<close>

fun attempted :: "event list \<Rightarrow> string list" where
  "attempted [] = []"
| "attempted (MessageAdd i m k # es) = i # attempted es"
| "attempted (e # es) = attempted es"

definition greeting_text :: "step_env \<Rightarrow> user \<Rightarrow> string" where
  "greeting_text e u =
     generateGreeting (clock e) (greeting_draw e) (tip_draw e) (display_name u)"

text \<open>A state of the loop without its log lines and pauses.\<close>

definition quiet :: "results \<times> world \<Rightarrow> results \<times> database \<times> bitrix_bot \<times> string list" where
  "quiet st = (fst st, db (snd st), the_bot (snd st), attempted (trace (snd st)))"

text \<open>
  For one call of \<^verbatim>\<open>sendGreetingToUser\<close> with a bot that has an id: the detail
  it returns, the rows the send writes, the table of recipients after it, and its
  events.
\<close>

definition outcome :: "step_env \<Rightarrow> user \<Rightarrow> detail" where
  "outcome e u =
     (case answer e of
        Rejects m \<Rightarrow> \<lparr>success = False, userId = bitrix_id u, error = Some m\<rparr>
      | _ \<Rightarrow> \<lparr>success = True, userId = bitrix_id u, error = None\<rparr>)"

definition step_rows :: "step_env \<Rightarrow> user \<Rightarrow> history_row list" where
  "step_rows e u =
     (case answer e of
        MessageId \<Rightarrow>
          [\<lparr>user_id = bitrix_id u, message_text = greeting_text e u, status = ''sent'',
            error_message = None\<rparr>]
      | NoMessageId \<Rightarrow> []
      | Rejects m \<Rightarrow>
          [\<lparr>user_id = bitrix_id u, message_text = greeting_text e u, status = ''error'',
            error_message = Some m\<rparr>])"

definition users_after :: "step_env \<Rightarrow> user \<Rightarrow> user list \<Rightarrow> user list" where
  "users_after e u tbl =
     (if delivery_fails e then tbl
      else map (\<lambda>x. if bitrix_id x = bitrix_id u
                      then x\<lparr>last_greeting_sent := Some (update_time e)\<rparr> else x) tbl)"

definition step_events :: "bot_config \<Rightarrow> step_env \<Rightarrow> user \<Rightarrow> event list" where
  "step_events cfg e u =
     MessageAdd (bitrix_id u) (greeting_text e u) generateKeyboard #
     (if delayBetweenMessages cfg > 0 then [Sleep (delayBetweenMessages cfg)] else [])"

text \<open>The recipients of a run with what the world gives to each, from attempt \<open>k\<close> on.\<close>

fun pair_up :: "(nat \<Rightarrow> step_env) \<Rightarrow> nat \<Rightarrow> user list \<Rightarrow> (user \<times> step_env) list" where
  "pair_up env k [] = []"
| "pair_up env k (u # us) = (u, env k) # pair_up env (Suc k) us"

text \<open>The rows \<^verbatim>\<open>saveGreetingStats\<close> writes for a list of details.\<close>

definition stats_rows :: "detail list \<Rightarrow> history_row list" where
  "stats_rows ds =
     concat (map (\<lambda>x. if \<not> success x \<and> truthy (error x)
                       then [\<lparr>user_id = userId x, message_text = ''Morning greeting'',
                              status = ''error'', error_message = error x\<rparr>]
                       else []) ds)"


text \<open>
  What the operations keep: every running task is the task that the map holds for the
  name it was scheduled under.
\<close>

definition recorded :: "'h scheduler \<Rightarrow> bool" where
  "recorded s \<longleftrightarrow>
     (\<forall>j<length (tasks s).
        running (tasks s ! j) \<longrightarrow> map_of (jobs s) (registered_as (tasks s ! j)) = Some j)"

text \<open>
  Alphabetical order in the words of the claim: the order of a dictionary, which does
  not tell upper case from lower case.
\<close>

definition lower_case :: "char \<Rightarrow> char" where
  "lower_case c =
     (case map_of (zip ''ABCDEFGHIJKLMNOPQRSTUVWXYZ'' ''abcdefghijklmnopqrstuvwxyz'') c of
        Some l \<Rightarrow> l
      | None \<Rightarrow> c)"

definition alphabetical :: "string list \<Rightarrow> bool" where
  "alphabetical ns \<longleftrightarrow> sorted (map (map lower_case) ns)"

section \<open>Example data\<close>

text \<open>
  A recipient greeted on 1 January 2024 at 22:00 UTC, which is 2 January, 01:00, in
  Moscow.
\<close>

definition anna :: user where
  "anna =
     \<lparr>id_pk = 1, bitrix_id = ''7'', name = Some ''Anna'', first_name = Some ''Anna'',
      last_name = Some ''Petrova'', email = Some ''anna@example.org'',
      work_position = Some [], department = Some ''5'', is_active = True,
      last_greeting_sent = Some 1704146400, created_at = 1700000000,
      updated_at = 1700000000\<rparr>"

text \<open>
  A second recipient, never greeted; a store with both; a run in which the platform
  rejects every message.
\<close>

definition boris :: user where
  "boris =
     \<lparr>id_pk = 2, bitrix_id = ''9'', name = Some ''Boris'', first_name = Some ''Boris'',
      last_name = Some ''Ivanov'', email = Some ''boris@example.org'',
      work_position = Some ''engineer'', department = Some ''5'', is_active = True,
      last_greeting_sent = None, created_at = 1700000000, updated_at = 1700000000\<rparr>"

definition office :: world where
  "office =
     \<lparr>db = \<lparr>users = [boris, anna], message_history = []\<rparr>,
      the_bot = \<lparr>botId = None, isInitialized = False\<rparr>, trace = []\<rparr>"

definition outage :: run_env where
  "outage =
     \<lparr>connect = Inr (Some ''42''), query_time = 1704175200,
      steps = (\<lambda>k. \<lparr>clock = \<lparr>getMonth = 0, getDate = 2\<rparr>, greeting_draw = 0, tip_draw = 0,
                      answer = Rejects ''timeout'', update_time = 1704175201\<rparr>)\<rparr>"

text \<open>A store with no recipient at all, and a bot that is ready.\<close>

definition closed_office :: world where
  "closed_office =
     \<lparr>db = \<lparr>users = [], message_history = []\<rparr>,
      the_bot = \<lparr>botId = Some ''42'', isInitialized = True\<rparr>, trace = []\<rparr>"

text \<open>A run in which the platform rejects the first message and takes the others.\<close>

definition first_rejected :: run_env where
  "first_rejected =
     \<lparr>connect = Inr (Some ''42''), query_time = 1704175200,
      steps = (\<lambda>k. \<lparr>clock = \<lparr>getMonth = 0, getDate = 2\<rparr>, greeting_draw = 3, tip_draw = 4,
                      answer = (if k = 0 then Rejects ''ACCESS_DENIED'' else MessageId),
                      update_time = 1704175203 + int k\<rparr>)\<rparr>"


text \<open>Twelve recipients, none greeted yet, and a fresh bot.\<close>

definition colleague :: "nat \<Rightarrow> user" where
  "colleague n =
     \<lparr>id_pk = int n, bitrix_id = js_String n, name = Some (''Colleague '' @ js_String n),
      first_name = Some ''Colleague'', last_name = Some (js_String n), email = None,
      work_position = None, department = None, is_active = True,
      last_greeting_sent = None, created_at = 1700000000, updated_at = 1700000000\<rparr>"

definition team :: world where
  "team =
     \<lparr>db = \<lparr>users = map colleague [101..<113], message_history = []\<rparr>,
      the_bot = \<lparr>botId = None, isInitialized = False\<rparr>, trace = []\<rparr>"

text \<open>
  Three recipients, none greeted yet: one whose name was entered in lower case, one in
  the usual spelling, and one whose column \<^verbatim>\<open>name\<close> is NULL and who is greeted by
  the first name. The store holds them in this order.
\<close>

definition dmitri :: user where
  "dmitri =
     \<lparr>id_pk = 12, bitrix_id = ''12'', name = Some ''dmitri'', first_name = Some ''Dmitri'',
      last_name = None, email = None, work_position = None, department = None,
      is_active = True, last_greeting_sent = None, created_at = 1700000000,
      updated_at = 1700000000\<rparr>"

definition zoya :: user where
  "zoya =
     \<lparr>id_pk = 11, bitrix_id = ''11'', name = Some ''Zoya'', first_name = Some ''Zoya'',
      last_name = None, email = None, work_position = None, department = None,
      is_active = True, last_greeting_sent = None, created_at = 1700000000,
      updated_at = 1700000000\<rparr>"

definition zed :: user where
  "zed =
     \<lparr>id_pk = 13, bitrix_id = ''13'', name = None, first_name = Some ''Zed'',
      last_name = None, email = None, work_position = None, department = None,
      is_active = True, last_greeting_sent = None, created_at = 1700000000,
      updated_at = 1700000000\<rparr>"

definition mixed_names :: world where
  "mixed_names =
     \<lparr>db = \<lparr>users = [dmitri, zoya, zed], message_history = []\<rparr>,
      the_bot = \<lparr>botId = None, isInitialized = False\<rparr>, trace = []\<rparr>"

section \<open>Eligibility selection\<close>

lemma set_getUsersForMorningGreeting:
  "set (getUsersForMorningGreeting now d) = {u \<in> set (users d). greeting_due now u}"
  by (simp add: getUsersForMorningGreeting_def)

lemma greeting_due_UTC: "greeting_due now u \<longleftrightarrow> spec_eligible UTC now u"
  by (cases "last_greeting_sent u")
     (simp_all add: greeting_due_def spec_eligible_def calendar_date_def UTC_def sql_DATE_def)

text \<open>
  C1, as stated, fails. The query compares UTC dates, whatever the configured time zone.
  A run on 2 January 2024 at 06:00 UTC (09:00 in Moscow) selects \<open>anna\<close>, whose last
  greeting is of the same Moscow day: by the rule of the specification, read in the
  zone Europe/Moscow, she is not eligible.
\<close>

theorem eligibility_in_configured_zone_counterexample:
  "anna \<in> set (getActiveUsersForGreeting 1704175200 \<lparr>users = [anna], message_history = []\<rparr>)
   \<and> \<not> spec_eligible Europe_Moscow 1704175200 anna"
  by (simp add: getActiveUsersForGreeting_def getUsersForMorningGreeting_def greeting_due_def
      spec_eligible_def anna_def Europe_Moscow_def calendar_date_def sql_DATE_def)

text \<open>
  C1, amended: a recipient of the store is in the eligible set of a run if and only if
  its active flag is true and its last greeting is null or of a UTC calendar date
  strictly before the UTC calendar date of the run.
\<close>

theorem eligible_iff_active_and_not_greeted_on_utc_date:
  "u \<in> set (getActiveUsersForGreeting now d) \<longleftrightarrow>
     u \<in> set (users d) \<and> spec_eligible UTC now u"
  by (auto simp: getActiveUsersForGreeting_def set_getUsersForMorningGreeting greeting_due_UTC)

section \<open>The Batch Dispatcher\<close>

lemma attempted_append: "attempted (xs @ ys) = attempted xs @ attempted ys"
  by (induction xs rule: attempted.induct) simp_all

lemma sendGreetingToUser_ready:
  assumes "botId (the_bot w) \<noteq> None"
  shows "sendGreetingToUser e u w =
    (case answer e of
       MessageId \<Rightarrow>
         (\<lparr>success = True, userId = bitrix_id u, error = None\<rparr>,
          w\<lparr>trace := trace w @ [MessageAdd (bitrix_id u) (greeting_text e u) generateKeyboard],
            db := updateLastGreeting (update_time e) (bitrix_id u)
                    (saveMessageHistory (bitrix_id u) (greeting_text e u) ''sent'' None (db w))\<rparr>)
     | NoMessageId \<Rightarrow>
         (\<lparr>success = True, userId = bitrix_id u, error = None\<rparr>,
          w\<lparr>trace := trace w @ [MessageAdd (bitrix_id u) (greeting_text e u) generateKeyboard],
            db := updateLastGreeting (update_time e) (bitrix_id u) (db w)\<rparr>)
     | Rejects m \<Rightarrow>
         (\<lparr>success = False, userId = bitrix_id u, error = Some m\<rparr>,
          w\<lparr>trace := trace w @ [MessageAdd (bitrix_id u) (greeting_text e u) generateKeyboard],
            db := saveMessageHistory (bitrix_id u) (greeting_text e u) ''error'' (Some m) (db w)\<rparr>))"
  using assms
  by (cases "answer e")
     (auto simp: sendGreetingToUser_def sendMessage_def emit_def greeting_text_def Let_def)

lemma process_user_ready:
  assumes "botId (the_bot w) \<noteq> None" and "details r = Some ds"
  shows "process_user cfg env u (r, w) =
    (let e = env (length ds);
         (result, w1) = sendGreetingToUser e u w
     in (r\<lparr>details := Some (ds @ [result]),
           sent := sent r + (if delivery_fails e then 0 else 1),
           errors := errors r + (if delivery_fails e then 1 else 0)\<rparr>,
         if delayBetweenMessages cfg > 0 then emit (Sleep (delayBetweenMessages cfg)) w1 else w1))"
  using assms
  by (cases "answer (env (length ds))")
     (simp_all add: process_user_def attempts_def sendGreetingToUser_ready delivery_fails_def Let_def)

lemma quiet_emit_Sleep [simp]: "quiet (r, emit (Sleep n) w) = quiet (r, w)"
  by (simp add: quiet_def emit_def attempted_append)

lemma quiet_emit_LogBatch [simp]: "quiet (r, emit (LogBatch a b) w) = quiet (r, w)"
  by (simp add: quiet_def emit_def attempted_append)

lemma quiet_sendGreetingToUser:
  assumes "db w = db w'" and "the_bot w = the_bot w'"
    and "attempted (trace w) = attempted (trace w')"
  shows "fst (sendGreetingToUser e u w) = fst (sendGreetingToUser e u w')
    \<and> db (snd (sendGreetingToUser e u w)) = db (snd (sendGreetingToUser e u w'))
    \<and> the_bot (snd (sendGreetingToUser e u w)) = the_bot (snd (sendGreetingToUser e u w'))
    \<and> attempted (trace (snd (sendGreetingToUser e u w))) =
        attempted (trace (snd (sendGreetingToUser e u w')))"
  using assms
  by (cases "answer e"; cases "botId (the_bot w')")
     (simp_all add: sendGreetingToUser_def sendMessage_def emit_def Let_def attempted_append)

lemma quiet_process_user:
  assumes "quiet st = quiet st'"
  shows "quiet (process_user cfg env u st) = quiet (process_user cfg env u st')"
proof -
  obtain r w r' w' where st: "st = (r, w)" "st' = (r', w')"
    by (cases st, cases st') auto
  from assms st have eq: "r' = r" "db w = db w'" "the_bot w = the_bot w'"
    "attempted (trace w) = attempted (trace w')"
    by (simp_all add: quiet_def)
  obtain res w1 where a: "sendGreetingToUser (env (attempts r)) u w = (res, w1)"
    by (cases "sendGreetingToUser (env (attempts r)) u w") auto
  obtain res' w1' where b: "sendGreetingToUser (env (attempts r)) u w' = (res', w1')"
    by (cases "sendGreetingToUser (env (attempts r)) u w'") auto
  from quiet_sendGreetingToUser [OF eq(2,3,4), of "env (attempts r)" u] a b
  have c: "res' = res" "db w1' = db w1" "the_bot w1' = the_bot w1"
    "attempted (trace w1') = attempted (trace w1)"
    by simp_all
  show ?thesis
    unfolding st eq(1) process_user_def
    by (simp add: a b c Let_def quiet_def emit_def attempted_append)
qed

lemma quiet_process_batch:
  "quiet st = quiet st' \<Longrightarrow>
   quiet (process_batch cfg env us st) = quiet (process_batch cfg env us st')"
proof (induction us arbitrary: st st')
  case Nil
  then show ?case by simp
next
  case (Cons u us)
  from Cons.prems
  have "quiet (process_user cfg env u st) = quiet (process_user cfg env u st')"
    by (rule quiet_process_user)
  then have "quiet (process_batch cfg env us (process_user cfg env u st)) =
    quiet (process_batch cfg env us (process_user cfg env u st'))"
    by (rule Cons.IH)
  then show ?case by simp
qed

lemma process_batch_append:
  "process_batch cfg env (xs @ ys) st = process_batch cfg env ys (process_batch cfg env xs st)"
  by (induction xs arbitrary: st) simp_all

lemma js_slice_batch:
  assumes "0 \<le> i" and "i < int (length us)" and "0 < b"
  shows "js_slice us i (i + b) = take (nat b) (drop (nat i) us)"
  using assms by (auto simp: js_slice_def Let_def min_def)

lemma batches_quiet:
  assumes pos: "0 < maxUsersPerBatch cfg"
  shows "0 \<le> i \<Longrightarrow>
    \<exists>st'. batches cfg env us i st = Some st' \<and>
          quiet st' = quiet (process_batch cfg env (drop (nat i) us) st)"
proof (induction "nat (int (length us) - i)" arbitrary: i st rule: less_induct)
  case less
  show ?case
  proof (cases "i < int (length us)")
    case False
    then have "batches cfg env us i st = Some st"
      by (subst batches.simps) simp
    moreover from False less.prems have "drop (nat i) us = []"
      by simp
    ultimately show ?thesis
      by simp
  next
    case True
    define b where "b = maxUsersPerBatch cfg"
    define logged where
      "logged = (fst st, emit (LogBatch (i div b + 1) (- ((- int (length us)) div b))) (snd st))"
    define st1 where "st1 = process_batch cfg env (js_slice us i (i + b)) logged"
    define st2 where
      "st2 = (if i + b < int (length us)
              then (fst st1, emit (Sleep (delayBetweenMessages cfg * 2)) (snd st1)) else st1)"
    have unfold: "batches cfg env us i st = batches cfg env us (i + b) st2"
      using True by (subst batches.simps) (simp add: Let_def b_def logged_def st1_def st2_def)
    from pos True less.prems have "nat (int (length us) - (i + b)) < nat (int (length us) - i)"
      by (simp add: b_def)
    moreover from pos less.prems have "0 \<le> i + b"
      by (simp add: b_def)
    ultimately obtain st' where st':
      "batches cfg env us (i + b) st2 = Some st'"
      "quiet st' = quiet (process_batch cfg env (drop (nat (i + b)) us) st2)"
      using less.hyps [of "i + b" st2] by blast
    have "quiet logged = quiet st"
      by (cases st) (simp add: logged_def)
    then have "quiet st1 = quiet (process_batch cfg env (js_slice us i (i + b)) st)"
      unfolding st1_def by (rule quiet_process_batch)
    moreover have "quiet st2 = quiet st1"
      by (cases st1) (simp add: st2_def)
    ultimately have "quiet st2 = quiet (process_batch cfg env (take (nat b) (drop (nat i) us)) st)"
      using js_slice_batch [OF less.prems True, of b] pos by (simp add: b_def)
    then have "quiet (process_batch cfg env (drop (nat (i + b)) us) st2) =
      quiet (process_batch cfg env (drop (nat (i + b)) us)
        (process_batch cfg env (take (nat b) (drop (nat i) us)) st))"
      by (rule quiet_process_batch)
    then have "quiet (process_batch cfg env (drop (nat (i + b)) us) st2) =
      quiet (process_batch cfg env (take (nat b) (drop (nat i) us) @ drop (nat (i + b)) us) st)"
      by (simp only: process_batch_append)
    moreover have "take (nat b) (drop (nat i) us) @ drop (nat (i + b)) us = drop (nat i) us"
    proof -
      from pos less.prems have "nat (i + b) = nat b + nat i"
        by (simp add: b_def nat_add_distrib)
      then have "drop (nat (i + b)) us = drop (nat b) (drop (nat i) us)"
        by simp
      then show ?thesis
        by (simp only: append_take_drop_id)
    qed
    ultimately show ?thesis
      using unfold st' by simp
  qed
qed

lemma process_user_effect:
  assumes "botId (the_bot w) \<noteq> None" and "details r = Some ds"
  shows "\<exists>r' w'. process_user cfg env u (r, w) = (r', w') \<and>
    the_bot w' = the_bot w \<and>
    details r' = Some (ds @ [outcome (env (length ds)) u]) \<and>
    total_count r' = total_count r \<and>
    sent r' = sent r + (if delivery_fails (env (length ds)) then 0 else 1) \<and>
    errors r' = errors r + (if delivery_fails (env (length ds)) then 1 else 0) \<and>
    users (db w') = users_after (env (length ds)) u (users (db w)) \<and>
    message_history (db w') = message_history (db w) @ step_rows (env (length ds)) u \<and>
    trace w' = trace w @ step_events cfg (env (length ds)) u"
  using assms
  by (cases "answer (env (length ds))")
     (simp_all add: process_user_ready sendGreetingToUser_ready Let_def emit_def
       step_events_def outcome_def step_rows_def users_after_def delivery_fails_def
       updateLastGreeting_def saveMessageHistory_def)

lemma process_batch_effect:
  assumes "botId (the_bot w) \<noteq> None" and "details r = Some ds"
  shows "\<exists>r' w'. process_batch cfg env us (r, w) = (r', w') \<and>
    the_bot w' = the_bot w \<and>
    details r' = Some (ds @ map (\<lambda>(u, e). outcome e u) (pair_up env (length ds) us)) \<and>
    total_count r' = total_count r \<and>
    sent r' = sent r + length (filter (\<lambda>(u, e). \<not> delivery_fails e) (pair_up env (length ds) us)) \<and>
    errors r' = errors r + length (filter (\<lambda>(u, e). delivery_fails e) (pair_up env (length ds) us)) \<and>
    users (db w') = fold (\<lambda>(u, e). users_after e u) (pair_up env (length ds) us) (users (db w)) \<and>
    message_history (db w') =
      message_history (db w) @ concat (map (\<lambda>(u, e). step_rows e u) (pair_up env (length ds) us)) \<and>
    trace w' = trace w @ concat (map (\<lambda>(u, e). step_events cfg e u) (pair_up env (length ds) us))"
  using assms
proof (induction us arbitrary: r w ds)
  case Nil
  then show ?case by simp
next
  case (Cons u us)
  from process_user_effect [OF Cons.prems, of cfg env u]
  obtain r1 w1 where step: "process_user cfg env u (r, w) = (r1, w1)"
    and bot1: "the_bot w1 = the_bot w"
    and det1: "details r1 = Some (ds @ [outcome (env (length ds)) u])"
    and tot1: "total_count r1 = total_count r"
    and sent1: "sent r1 = sent r + (if delivery_fails (env (length ds)) then 0 else 1)"
    and err1: "errors r1 = errors r + (if delivery_fails (env (length ds)) then 1 else 0)"
    and usr1: "users (db w1) = users_after (env (length ds)) u (users (db w))"
    and his1: "message_history (db w1) = message_history (db w) @ step_rows (env (length ds)) u"
    and att1: "trace w1 = trace w @ step_events cfg (env (length ds)) u"
    by blast
  from Cons.prems(1) bot1 have ready1: "botId (the_bot w1) \<noteq> None"
    by simp
  from Cons.IH [OF ready1 det1]
  obtain r' w' where rest: "process_batch cfg env us (r1, w1) = (r', w')"
    and facts: "the_bot w' = the_bot w1"
      "details r' = Some ((ds @ [outcome (env (length ds)) u]) @
         map (\<lambda>(u, e). outcome e u) (pair_up env (Suc (length ds)) us))"
      "total_count r' = total_count r1"
      "sent r' = sent r1 + length (filter (\<lambda>(u, e). \<not> delivery_fails e) (pair_up env (Suc (length ds)) us))"
      "errors r' = errors r1 + length (filter (\<lambda>(u, e). delivery_fails e) (pair_up env (Suc (length ds)) us))"
      "users (db w') = fold (\<lambda>(u, e). users_after e u) (pair_up env (Suc (length ds)) us) (users (db w1))"
      "message_history (db w') = message_history (db w1) @
         concat (map (\<lambda>(u, e). step_rows e u) (pair_up env (Suc (length ds)) us))"
      "trace w' = trace w1 @
         concat (map (\<lambda>(u, e). step_events cfg e u) (pair_up env (Suc (length ds)) us))"
    by auto
  show ?case
    by (simp add: step rest facts bot1 tot1 sent1 err1 usr1 his1 att1)
qed

lemma attempted_step_events:
  "attempted (concat (map (\<lambda>(u, e). step_events cfg e u) (pair_up env k us))) = map bitrix_id us"
  by (induction us arbitrary: k) (simp_all add: step_events_def attempted_append)

lemma length_pair_up [simp]: "length (pair_up env k us) = length us"
  by (induction us arbitrary: k) simp_all

lemma nth_pair_up: "i < length us \<Longrightarrow> pair_up env k us ! i = (us ! i, env (k + i))"
proof (induction us arbitrary: k i)
  case Nil
  then show ?case by simp
next
  case (Cons u us)
  then show ?case by (cases i) simp_all
qed

lemma map_fst_pair_up [simp]: "map fst (pair_up env k us) = us"
  by (induction us arbitrary: k) simp_all

lemma save_details_effect:
  "users (save_details ds d) = users d \<and>
   message_history (save_details ds d) = message_history d @ stats_rows ds"
  by (induction ds arbitrary: d) (simp_all add: stats_rows_def saveMessageHistory_def)

lemma run_effect:
  assumes init: "initialize (connect env) (the_bot w) = Inr b"
    and ready: "botId b \<noteq> None"
    and pos: "0 < maxUsersPerBatch cfg"
  defines "us \<equiv> getActiveUsersForGreeting (query_time env) (db w)"
  defines "ps \<equiv> pair_up (steps env) 0 us"
  shows "\<exists>r w'. sendMorningGreetings cfg env w = Some (Inr r, w') \<and>
    the_bot w' = b \<and>
    outcomes r = map (\<lambda>(u, e). outcome e u) ps \<and>
    (us \<noteq> [] \<longrightarrow> details r = Some (outcomes r)) \<and>
    total_count r = length us \<and>
    sent r = length (filter (\<lambda>(u, e). \<not> delivery_fails e) ps) \<and>
    errors r = length (filter (\<lambda>(u, e). delivery_fails e) ps) \<and>
    users (db w') = fold (\<lambda>(u, e). users_after e u) ps (users (db w)) \<and>
    message_history (db w') =
      message_history (db w) @ concat (map (\<lambda>(u, e). step_rows e u) ps) @ stats_rows (outcomes r) \<and>
    attempted (trace w') = attempted (trace w) @ map bitrix_id us"
proof (cases "us = []")
  case True
  then show ?thesis
    using init ready
    by (simp add: sendMorningGreetings_def us_def [symmetric] ps_def outcomes_def stats_rows_def
        Let_def)
next
  case False
  define w0 where "w0 = w\<lparr>the_bot := b\<rparr>"
  define r0 where "r0 = \<lparr>total_count = length us, sent = 0, errors = 0, details = Some []\<rparr>"
  from batches_quiet [OF pos, of 0 "steps env" us "(r0, w0)"]
  obtain st' where loop: "batches cfg (steps env) us 0 (r0, w0) = Some st'"
    and q: "quiet st' = quiet (process_batch cfg (steps env) us (r0, w0))"
    by auto
  have "botId (the_bot w0) \<noteq> None" and "details r0 = Some []"
    using ready by (simp_all add: w0_def r0_def)
  from process_batch_effect [OF this, of cfg "steps env" us]
  obtain r1 w1 where pb: "process_batch cfg (steps env) us (r0, w0) = (r1, w1)"
    and facts: "the_bot w1 = the_bot w0"
      "details r1 = Some (map (\<lambda>(u, e). outcome e u) ps)"
      "total_count r1 = total_count r0"
      "sent r1 = sent r0 + length (filter (\<lambda>(u, e). \<not> delivery_fails e) ps)"
      "errors r1 = errors r0 + length (filter (\<lambda>(u, e). delivery_fails e) ps)"
      "users (db w1) = fold (\<lambda>(u, e). users_after e u) ps (users (db w0))"
      "message_history (db w1) =
         message_history (db w0) @ concat (map (\<lambda>(u, e). step_rows e u) ps)"
      "trace w1 = trace w0 @ concat (map (\<lambda>(u, e). step_events cfg e u) ps)"
    by (auto simp: ps_def)
  obtain r w' where st': "st' = (r, w')"
    by (cases st')
  from q pb st' have same: "r = r1" "db w' = db w1" "the_bot w' = the_bot w1"
    "attempted (trace w') = attempted (trace w1)"
    by (simp_all add: quiet_def)
  have run: "sendMorningGreetings cfg env w = Some (Inr r, saveGreetingStats r w')"
    using init ready False loop st'
    by (simp add: sendMorningGreetings_def us_def [symmetric] Let_def w0_def r0_def)
  show ?thesis
    using run same facts False save_details_effect [of "outcomes r" "db w'"]
    by (simp add: saveGreetingStats_def outcomes_def w0_def r0_def attempted_append
        attempted_step_events ps_def)
qed

section \<open>The Message Composer\<close>

text \<open>
  C8, as stated, fails. On 2 January, which is no holiday of the configuration, two
  calls with the same name give different texts when the random draw for the greeting
  differs.
\<close>

theorem composer_same_name_same_date_counterexample:
  "generateGreeting \<lparr>getMonth = 0, getDate = 2\<rparr> 0 0 ''Anna'' \<noteq>
   generateGreeting \<lparr>getMonth = 0, getDate = 2\<rparr> 1 0 ''Anna''"
  by code_simp

text \<open>
  C8, amended: the keyboard payload is a constant, the same in every call; the message
  text is a function of the display name, the date and two random draws, and on a date
  whose key has a text in the holiday table it is the same for every pair of draws.
\<close>

theorem composer_deterministic_on_holidays:
  "truthy (map_of config_holidays (monthDay d)) \<Longrightarrow>
   generateGreeting d g t userName = generateGreeting d g' t' userName"
  by (simp add: generateGreeting_def)

theorem composer_deterministic_on_holidays_witness:
  "truthy (map_of config_holidays (monthDay \<lparr>getMonth = 0, getDate = 1\<rparr>)) \<and>
   generateGreeting \<lparr>getMonth = 0, getDate = 1\<rparr> 0 0 ''Anna'' =
   generateGreeting \<lparr>getMonth = 0, getDate = 1\<rparr> 3 7 ''Anna''"
proof -
  have h: "truthy (map_of config_holidays (monthDay \<lparr>getMonth = 0, getDate = 1\<rparr>))"
    by code_simp
  show ?thesis
    using h composer_deterministic_on_holidays [OF h, of 0 0 "''Anna''" 3 7] by simp
qed

section \<open>Runs of the Batch Dispatcher\<close>

lemma success_outcome [simp]: "success (outcome e u) \<longleftrightarrow> \<not> delivery_fails e"
  by (cases "answer e") (simp_all add: outcome_def delivery_fails_def)

lemma userId_outcome [simp]: "userId (outcome e u) = bitrix_id u"
  by (cases "answer e") (simp_all add: outcome_def)

lemma map_userId_outcomes:
  "map userId (map (\<lambda>(u, e). outcome e u) (pair_up env k us)) = map bitrix_id us"
  by (induction us arbitrary: k) simp_all

lemma map_success_outcomes:
  "map success (map (\<lambda>(u, e). outcome e u) (pair_up env k us)) =
   map (\<lambda>i. \<not> delivery_fails (env i)) [k..<k + length us]"
proof (induction us arbitrary: k)
  case Nil
  then show ?case by simp
next
  case (Cons u us)
  have "[k..<k + length (u # us)] = k # [Suc k..<Suc k + length us]"
    by (simp add: upt_rec)
  with Cons show ?case by simp
qed

lemma filter_success_outcomes:
  "length (filter success (map (\<lambda>(u, e). outcome e u) ps)) =
     length (filter (\<lambda>(u, e). \<not> delivery_fails e) ps)"
  "length (filter (\<lambda>d. \<not> success d) (map (\<lambda>(u, e). outcome e u) ps)) =
     length (filter (\<lambda>(u, e). delivery_fails e) ps)"
  by (induction ps) (auto simp: split_beta)

text \<open>
  With a batch size below zero the outer loop of a run over a list that is not empty
  never ends: the index only falls.
\<close>

lemma batches_negative_size:
  assumes "batches cfg env us i st = Some y"
  shows "\<not> (maxUsersPerBatch cfg < 0 \<and> i < int (length us))"
proof (rule batches.raw_induct
    [where P = "\<lambda>cfg env us i st y. \<not> (maxUsersPerBatch cfg < 0 \<and> i < int (length us))",
      OF _ assms])
  fix loop :: "bot_config \<Rightarrow> (nat \<Rightarrow> step_env) \<Rightarrow> user list \<Rightarrow> int \<Rightarrow> results \<times> world
      \<Rightarrow> (results \<times> world) option"
    and cfg env us i st y
  assume IH: "\<And>cfg env us i st y. loop cfg env us i st = Some y \<Longrightarrow>
      \<not> (maxUsersPerBatch cfg < 0 \<and> i < int (length us))"
    and body: "(if i < int (length us) then
        let batchSize = maxUsersPerBatch cfg;
            batch = js_slice us i (i + batchSize);
            logged = (fst st, emit (LogBatch (i div batchSize + 1)
                                      (- ((- int (length us)) div batchSize))) (snd st));
            st1 = process_batch cfg env batch logged;
            st2 = (if i + batchSize < int (length us)
                   then (fst st1, emit (Sleep (delayBetweenMessages cfg * 2)) (snd st1))
                   else st1)
        in loop cfg env us (i + batchSize) st2
      else Some st) = Some y"
  show "\<not> (maxUsersPerBatch cfg < 0 \<and> i < int (length us))"
  proof
    assume neg: "maxUsersPerBatch cfg < 0 \<and> i < int (length us)"
    then have less: "i + maxUsersPerBatch cfg < int (length us)"
      by simp
    from body neg less obtain st2 where "loop cfg env us (i + maxUsersPerBatch cfg) st2 = Some y"
      by (auto simp: Let_def)
    from IH [OF this] neg less show False
      by simp
  qed
qed

lemma batches_never_returns:
  "maxUsersPerBatch cfg < 0 \<Longrightarrow> i < int (length us) \<Longrightarrow> batches cfg env us i st = None"
  using batches_negative_size [of cfg env us i st] by (cases "batches cfg env us i st") auto

lemma eligible_office:
  "getActiveUsersForGreeting 1704175200 (db office) = [anna, boris]"
  by (simp add: getActiveUsersForGreeting_def getUsersForMorningGreeting_def office_def anna_def
      boris_def greeting_due_def sql_DATE_def)

text \<open>
  C2, as stated, fails. The configuration keeps a negative
  \<^verbatim>\<open>MAX_USERS_PER_BATCH\<close>, and with a batch size of -1 a run over two recipients
  does not return: it neither completes nor gives counts.
\<close>

theorem run_with_negative_batch_size_counterexample:
  "sendMorningGreetings \<lparr>maxUsersPerBatch = - 1, delayBetweenMessages = 1000\<rparr> outage office = None"
proof -
  have i: "initialize (connect outage) (the_bot office) =
      Inr \<lparr>botId = Some ''42'', isInitialized = True\<rparr>"
    by (simp add: initialize_def outage_def office_def)
  have us: "getActiveUsersForGreeting (query_time outage) (db office) = [anna, boris]"
    using eligible_office by (simp add: outage_def)
  have "batches \<lparr>maxUsersPerBatch = - 1, delayBetweenMessages = 1000\<rparr> (steps outage)
      [anna, boris] 0 st = None" for st
    by (rule batches_never_returns) simp_all
  then show ?thesis
    by (simp add: sendMorningGreetings_def i us Let_def)
qed

text \<open>
  C2, amended: with a positive batch size, a run that starts (the bot is initialised and
  has an id) returns, whatever the platform answers. Every eligible recipient is
  attempted, in order, whether earlier deliveries failed or not; the outcomes are those
  of the recipients, in order, each a failure exactly when its delivery failed; the
  count of errors is the number of failed outcomes, the count of sent the number of
  successful ones, and the two add up to the total.
\<close>

theorem run_completes_and_counts_outcomes:
  assumes "initialize (connect env) (the_bot w) = Inr b" and "botId b \<noteq> None"
    and "0 < maxUsersPerBatch cfg"
  shows "\<exists>r w'. sendMorningGreetings cfg env w = Some (Inr r, w') \<and>
    attempted (trace w') =
      attempted (trace w) @ map bitrix_id (getActiveUsersForGreeting (query_time env) (db w)) \<and>
    map userId (outcomes r) = map bitrix_id (getActiveUsersForGreeting (query_time env) (db w)) \<and>
    map success (outcomes r) =
      map (\<lambda>k. \<not> delivery_fails (steps env k))
        [0..<length (getActiveUsersForGreeting (query_time env) (db w))] \<and>
    errors r = length (filter (\<lambda>d. \<not> success d) (outcomes r)) \<and>
    sent r = length (filter success (outcomes r)) \<and>
    sent r + errors r = total_count r \<and>
    total_count r = length (getActiveUsersForGreeting (query_time env) (db w))"
proof -
  define us where "us = getActiveUsersForGreeting (query_time env) (db w)"
  define ps where "ps = pair_up (steps env) 0 us"
  from run_effect [OF assms]
  obtain r w' where run: "sendMorningGreetings cfg env w = Some (Inr r, w')"
    and out: "outcomes r = map (\<lambda>(u, e). outcome e u) ps"
    and tot: "total_count r = length us"
    and snt: "sent r = length (filter (\<lambda>(u, e). \<not> delivery_fails e) ps)"
    and err: "errors r = length (filter (\<lambda>(u, e). delivery_fails e) ps)"
    and att: "attempted (trace w') = attempted (trace w) @ map bitrix_id us"
    unfolding us_def ps_def by blast
  have "sent r + errors r = length ps"
    unfolding snt err by (induction ps) auto
  then have sum: "sent r + errors r = total_count r"
    by (simp add: tot ps_def)
  have ids: "map userId (outcomes r) = map bitrix_id us"
    by (simp only: out ps_def map_userId_outcomes)
  have suc: "map success (outcomes r) = map (\<lambda>k. \<not> delivery_fails (steps env k)) [0..<length us]"
    using map_success_outcomes [of "steps env" 0 us] by (simp only: out ps_def) simp
  have e: "errors r = length (filter (\<lambda>d. \<not> success d) (outcomes r))"
    by (simp only: out err filter_success_outcomes)
  have s: "sent r = length (filter success (outcomes r))"
    by (simp only: out snt filter_success_outcomes)
  show ?thesis
    using run att ids suc e s sum tot unfolding us_def by blast
qed

theorem run_completes_and_counts_outcomes_witness:
  "initialize (connect outage) (the_bot office) = Inr \<lparr>botId = Some ''42'', isInitialized = True\<rparr>
   \<and> botId \<lparr>botId = Some ''42'', isInitialized = True\<rparr> \<noteq> None
   \<and> 0 < maxUsersPerBatch default_bot_config
   \<and> (\<exists>r w'. sendMorningGreetings default_bot_config outage office = Some (Inr r, w') \<and>
        attempted (trace w') = [''7'', ''9''] \<and>
        map userId (outcomes r) = [''7'', ''9''] \<and>
        map success (outcomes r) = [False, False] \<and>
        sent r = 0 \<and> errors r = 2 \<and> total_count r = 2)"
proof -
  have i: "initialize (connect outage) (the_bot office) =
      Inr \<lparr>botId = Some ''42'', isInitialized = True\<rparr>"
    by (simp add: initialize_def outage_def office_def)
  have b: "botId \<lparr>botId = Some ''42'', isInitialized = True\<rparr> \<noteq> None"
    by simp
  have p: "0 < maxUsersPerBatch default_bot_config"
    by (simp add: default_bot_config_def)
  have q: "query_time outage = 1704175200"
    by (simp add: outage_def)
  have f: "map (\<lambda>k. \<not> delivery_fails (steps outage k)) [0..<length [anna, boris]] = [False, False]"
    by (simp add: outage_def delivery_fails_def upt_rec)
  have t: "attempted (trace office) = []"
    by (simp add: office_def)
  have ids: "map bitrix_id [anna, boris] = [''7'', ''9'']"
    by (simp add: anna_def boris_def)
  from run_completes_and_counts_outcomes [OF i b p, unfolded q eligible_office f t ids append_Nil] obtain r w' where
    run: "sendMorningGreetings default_bot_config outage office = Some (Inr r, w')"
    and att: "attempted (trace w') = [''7'', ''9'']"
    and uid: "map userId (outcomes r) = [''7'', ''9'']"
    and suc: "map success (outcomes r) = [False, False]"
    and err: "errors r = length (filter (\<lambda>d. \<not> success d) (outcomes r))"
    and snt: "sent r = length (filter success (outcomes r))"
    and tot: "total_count r = length [anna, boris]"
    by (elim exE conjE)
  have "length (filter success (outcomes r)) =
      length (filter (\<lambda>x. x) (map success (outcomes r)))"
    by (simp add: filter_map comp_def)
  with snt suc have s0: "sent r = 0"
    by simp
  have "length (filter (\<lambda>d. \<not> success d) (outcomes r)) =
      length (filter (\<lambda>x. \<not> x) (map success (outcomes r)))"
    by (simp add: filter_map comp_def)
  with err suc have e2: "errors r = 2"
    by simp
  from tot have t2: "total_count r = 2"
    by simp
  show ?thesis
    using i b p run att uid suc s0 e2 t2 by auto
qed

text \<open>
  C5: a run over an empty list of eligible recipients returns total 0, sent 0, errors 0
  and an empty outcome sequence, and writes nothing to the store (nor sends or waits).
  The object returned there is the literal with the three counts; it has no field
  \<^verbatim>\<open>details\<close>, which \<open>outcomes\<close> reads as the empty sequence.
\<close>

theorem empty_run_returns_zero_counts:
  assumes "initialize (connect env) (the_bot w) = Inr b" and "botId b \<noteq> None"
    and "getActiveUsersForGreeting (query_time env) (db w) = []"
  shows "\<exists>r w'. sendMorningGreetings cfg env w = Some (Inr r, w') \<and>
    total_count r = 0 \<and> sent r = 0 \<and> errors r = 0 \<and> outcomes r = [] \<and>
    db w' = db w \<and> trace w' = trace w"
  using assms by (simp add: sendMorningGreetings_def Let_def outcomes_def)

theorem empty_run_returns_zero_counts_witness:
  "initialize (connect outage) (the_bot closed_office) =
     Inr \<lparr>botId = Some ''42'', isInitialized = True\<rparr>
   \<and> botId \<lparr>botId = Some ''42'', isInitialized = True\<rparr> \<noteq> None
   \<and> getActiveUsersForGreeting (query_time outage) (db closed_office) = []
   \<and> (\<exists>r w'. sendMorningGreetings default_bot_config outage closed_office = Some (Inr r, w') \<and>
        total_count r = 0 \<and> sent r = 0 \<and> errors r = 0 \<and> outcomes r = [] \<and>
        db w' = \<lparr>users = [], message_history = []\<rparr> \<and> trace w' = [])"
proof -
  have i: "initialize (connect outage) (the_bot closed_office) =
      Inr \<lparr>botId = Some ''42'', isInitialized = True\<rparr>"
    by (simp add: initialize_def closed_office_def)
  have b: "botId \<lparr>botId = Some ''42'', isInitialized = True\<rparr> \<noteq> None"
    by simp
  have e: "getActiveUsersForGreeting (query_time outage) (db closed_office) = []"
    by (simp add: getActiveUsersForGreeting_def getUsersForMorningGreeting_def closed_office_def)
  have d: "db closed_office = \<lparr>users = [], message_history = []\<rparr>" "trace closed_office = []"
    by (simp_all add: closed_office_def)
  show ?thesis
    using i b e empty_run_returns_zero_counts [OF i b e, of default_bot_config]
    by (simp add: d)
qed

section \<open>What a run writes to the records of the recipients\<close>

lemma users_after_length [simp]: "length (users_after e u tbl) = length tbl"
  by (simp add: users_after_def)

lemma users_after_nth:
  "j < length tbl \<Longrightarrow>
   users_after e u tbl ! j =
     (if \<not> delivery_fails e \<and> bitrix_id (tbl ! j) = bitrix_id u
      then (tbl ! j)\<lparr>last_greeting_sent := Some (update_time e)\<rparr> else tbl ! j)"
  by (simp add: users_after_def)

lemma fold_users_after_length [simp]:
  "length (fold (\<lambda>(u, e). users_after e u) (pair_up env k us) tbl) = length tbl"
  by (induction us arbitrary: k tbl) simp_all

lemma fold_users_after_nth:
  assumes "distinct (map bitrix_id us)" and "j < length tbl"
  shows "(\<forall>i<length us. bitrix_id (us ! i) = bitrix_id (tbl ! j) \<longrightarrow>
            fold (\<lambda>(u, e). users_after e u) (pair_up env k us) tbl ! j =
              (if delivery_fails (env (k + i)) then tbl ! j
               else (tbl ! j)\<lparr>last_greeting_sent := Some (update_time (env (k + i)))\<rparr>))
       \<and> (bitrix_id (tbl ! j) \<notin> bitrix_id ` set us \<longrightarrow>
            fold (\<lambda>(u, e). users_after e u) (pair_up env k us) tbl ! j = tbl ! j)"
  using assms
proof (induction us arbitrary: k tbl)
  case Nil
  then show ?case by simp
next
  case (Cons u us)
  define tbl1 where "tbl1 = users_after (env k) u tbl"
  have len: "j < length tbl1"
    using Cons.prems by (simp add: tbl1_def)
  have row: "tbl1 ! j =
      (if \<not> delivery_fails (env k) \<and> bitrix_id (tbl ! j) = bitrix_id u
       then (tbl ! j)\<lparr>last_greeting_sent := Some (update_time (env k))\<rparr> else tbl ! j)"
    using Cons.prems by (simp add: tbl1_def users_after_nth)
  then have same_id: "bitrix_id (tbl1 ! j) = bitrix_id (tbl ! j)"
    by simp
  from Cons.prems have dist: "distinct (map bitrix_id us)"
    and fresh: "bitrix_id u \<notin> bitrix_id ` set us"
    by simp_all
  note IH = Cons.IH [OF dist len, of "Suc k"]
  have fold_eq: "fold (\<lambda>(u, e). users_after e u) (pair_up env k (u # us)) tbl =
      fold (\<lambda>(u, e). users_after e u) (pair_up env (Suc k) us) tbl1"
    by (simp add: tbl1_def)
  show ?case
  proof (intro conjI allI impI)
    fix i
    assume i: "i < length (u # us)" and id: "bitrix_id ((u # us) ! i) = bitrix_id (tbl ! j)"
    show "fold (\<lambda>(u, e). users_after e u) (pair_up env k (u # us)) tbl ! j =
        (if delivery_fails (env (k + i)) then tbl ! j
         else (tbl ! j)\<lparr>last_greeting_sent := Some (update_time (env (k + i)))\<rparr>)"
    proof (cases i)
      case 0
      with id have "bitrix_id (tbl ! j) = bitrix_id u"
        by simp
      with fresh same_id IH have "fold (\<lambda>(u, e). users_after e u) (pair_up env (Suc k) us) tbl1 ! j = tbl1 ! j"
        by simp
      with row 0 \<open>bitrix_id (tbl ! j) = bitrix_id u\<close> show ?thesis
        unfolding fold_eq by simp
    next
      case (Suc i')
      with i id have i': "i' < length us" and id': "bitrix_id (us ! i') = bitrix_id (tbl ! j)"
        by simp_all
      then have "bitrix_id (tbl ! j) \<in> bitrix_id ` set us"
        by (metis imageI nth_mem)
      with fresh have "bitrix_id (tbl ! j) \<noteq> bitrix_id u"
        by auto
      with row have "tbl1 ! j = tbl ! j"
        by simp
      moreover from IH i' id' same_id
      have "fold (\<lambda>(u, e). users_after e u) (pair_up env (Suc k) us) tbl1 ! j =
          (if delivery_fails (env (Suc k + i')) then tbl1 ! j
           else (tbl1 ! j)\<lparr>last_greeting_sent := Some (update_time (env (Suc k + i')))\<rparr>)"
        by simp
      ultimately show ?thesis
        unfolding fold_eq using Suc by simp
    qed
  next
    assume out: "bitrix_id (tbl ! j) \<notin> bitrix_id ` set (u # us)"
    then have "bitrix_id (tbl ! j) \<noteq> bitrix_id u" and "bitrix_id (tbl ! j) \<notin> bitrix_id ` set us"
      by simp_all
    with row same_id IH
    show "fold (\<lambda>(u, e). users_after e u) (pair_up env k (u # us)) tbl ! j = tbl ! j"
      unfolding fold_eq by simp
  qed
qed

lemma eligible_subset: "set (getActiveUsersForGreeting now d) \<subseteq> set (users d)"
  by (auto simp: getActiveUsersForGreeting_def getUsersForMorningGreeting_def)

lemma eligible_distinct_ids:
  assumes "distinct (map bitrix_id (users d))"
  shows "distinct (map bitrix_id (getActiveUsersForGreeting now d))"
proof -
  from assms have "distinct (users d)" and "inj_on bitrix_id (set (users d))"
    by (simp_all add: distinct_map)
  then have "distinct (getActiveUsersForGreeting now d)"
    and "inj_on bitrix_id (set (getActiveUsersForGreeting now d))"
    using eligible_subset [of now d]
    by (simp_all add: getActiveUsersForGreeting_def getUsersForMorningGreeting_def inj_on_subset)
  then show ?thesis
    by (simp add: distinct_map)
qed

text \<open>
  C4: in a run that starts, over a store whose recipients have distinct ids, the record
  of a recipient whose delivery fails is left as it was, the record of a recipient whose
  delivery does not fail is changed in the field \<^verbatim>\<open>last_greeting_sent\<close> alone, to
  the time of the update that follows its send, and the record of everyone who is not in
  the run is left as it was. \<open>j\<close> is a position in the table, \<open>k\<close> a position in the
  run.
\<close>

theorem run_touches_last_greeting_of_successes_only:
  assumes "initialize (connect env) (the_bot w) = Inr b" and "botId b \<noteq> None"
    and "0 < maxUsersPerBatch cfg"
    and "distinct (map bitrix_id (users (db w)))"
  shows "\<exists>r w'. sendMorningGreetings cfg env w = Some (Inr r, w') \<and>
    length (users (db w')) = length (users (db w)) \<and>
    (\<forall>j<length (users (db w)).
       (\<forall>k<length (getActiveUsersForGreeting (query_time env) (db w)).
          getActiveUsersForGreeting (query_time env) (db w) ! k = users (db w) ! j \<longrightarrow>
          users (db w') ! j =
            (if delivery_fails (steps env k) then users (db w) ! j
             else (users (db w) ! j)\<lparr>last_greeting_sent := Some (update_time (steps env k))\<rparr>))
       \<and> (users (db w) ! j \<notin> set (getActiveUsersForGreeting (query_time env) (db w)) \<longrightarrow>
            users (db w') ! j = users (db w) ! j))"
proof -
  define us where "us = getActiveUsersForGreeting (query_time env) (db w)"
  define tbl where "tbl = users (db w)"
  from run_effect [OF assms(1-3)]
  obtain r w' where run: "sendMorningGreetings cfg env w = Some (Inr r, w')"
    and tbl': "users (db w') = fold (\<lambda>(u, e). users_after e u) (pair_up (steps env) 0 us) tbl"
    unfolding us_def tbl_def by blast
  have dist: "distinct (map bitrix_id us)"
    unfolding us_def using assms(4) by (rule eligible_distinct_ids)
  have sub: "set us \<subseteq> set tbl"
    unfolding us_def tbl_def by (rule eligible_subset)
  from assms(4) have inj: "inj_on bitrix_id (set tbl)"
    by (simp add: distinct_map tbl_def)
  have rows: "(\<forall>k<length us. us ! k = tbl ! j \<longrightarrow>
        users (db w') ! j =
          (if delivery_fails (steps env k) then tbl ! j
           else (tbl ! j)\<lparr>last_greeting_sent := Some (update_time (steps env k))\<rparr>))
      \<and> (tbl ! j \<notin> set us \<longrightarrow> users (db w') ! j = tbl ! j)"
    if j: "j < length tbl" for j
  proof -
    note nth = fold_users_after_nth [OF dist j, of "steps env" 0, folded tbl']
    have "bitrix_id (tbl ! j) \<notin> bitrix_id ` set us" if "tbl ! j \<notin> set us"
    proof
      assume "bitrix_id (tbl ! j) \<in> bitrix_id ` set us"
      then obtain u where u: "u \<in> set us" "bitrix_id (tbl ! j) = bitrix_id u"
        by auto
      with sub j inj have "tbl ! j = u"
        by (meson inj_onD nth_mem subsetD)
      with u(1) that show False
        by simp
    qed
    with nth show ?thesis
      by auto
  qed
  have "length (users (db w')) = length tbl"
    by (simp add: tbl')
  with run rows show ?thesis
    unfolding us_def tbl_def by blast
qed

lemma eligible_office_first_rejected:
  "getActiveUsersForGreeting (query_time first_rejected) (db office) = [anna, boris]"
  by (simp add: first_rejected_def eligible_office)

theorem run_touches_last_greeting_of_successes_only_witness:
  "initialize (connect first_rejected) (the_bot office) =
     Inr \<lparr>botId = Some ''42'', isInitialized = True\<rparr>
   \<and> botId \<lparr>botId = Some ''42'', isInitialized = True\<rparr> \<noteq> None
   \<and> 0 < maxUsersPerBatch default_bot_config
   \<and> distinct (map bitrix_id (users (db office)))
   \<and> (\<exists>r w'. sendMorningGreetings default_bot_config first_rejected office = Some (Inr r, w') \<and>
        users (db w') = [boris\<lparr>last_greeting_sent := Some 1704175204\<rparr>, anna])"
proof -
  have i: "initialize (connect first_rejected) (the_bot office) =
      Inr \<lparr>botId = Some ''42'', isInitialized = True\<rparr>"
    by (simp add: initialize_def first_rejected_def office_def)
  have b: "botId \<lparr>botId = Some ''42'', isInitialized = True\<rparr> \<noteq> None"
    by simp
  have p: "0 < maxUsersPerBatch default_bot_config"
    by (simp add: default_bot_config_def)
  have d: "distinct (map bitrix_id (users (db office)))"
    by (simp add: office_def anna_def boris_def)
  have tbl: "users (db office) = [boris, anna]"
    by (simp add: office_def)
  from run_touches_last_greeting_of_successes_only [OF i b p d]
  obtain r w' where run: "sendMorningGreetings default_bot_config first_rejected office = Some (Inr r, w')"
    and len: "length (users (db w')) = length [boris, anna]"
    and rows: "\<And>j k. j < 2 \<Longrightarrow> k < 2 \<Longrightarrow> [anna, boris] ! k = [boris, anna] ! j \<Longrightarrow>
        users (db w') ! j =
          (if delivery_fails (steps first_rejected k) then [boris, anna] ! j
           else ([boris, anna] ! j)\<lparr>last_greeting_sent := Some (update_time (steps first_rejected k))\<rparr>)"
    unfolding eligible_office_first_rejected tbl by auto
  from rows [of 0 1] have "users (db w') ! 0 = boris\<lparr>last_greeting_sent := Some 1704175204\<rparr>"
    by (simp add: first_rejected_def delivery_fails_def)
  moreover from rows [of 1 0] have "users (db w') ! 1 = anna"
    by (simp add: first_rejected_def delivery_fails_def)
  ultimately have "users (db w') = [boris\<lparr>last_greeting_sent := Some 1704175204\<rparr>, anna]"
    using len by (auto simp: list_eq_iff_nth_eq less_Suc_eq)
  with i b p d run show ?thesis
    by auto
qed

section \<open>What a run writes to the history\<close>








section \<open>Batches and pauses\<close>

lemma batches_unfold_more:
  assumes "i < int (length us)" and "0 \<le> i" and "0 < maxUsersPerBatch cfg"
    and "i + maxUsersPerBatch cfg < int (length us)"
  shows "batches cfg env us i (r, w) =
    batches cfg env us (i + maxUsersPerBatch cfg)
      (fst (process_batch cfg env (take (nat (maxUsersPerBatch cfg)) (drop (nat i) us))
              (r, emit (LogBatch (i div maxUsersPerBatch cfg + 1)
                         (- ((- int (length us)) div maxUsersPerBatch cfg))) w)),
       emit (Sleep (delayBetweenMessages cfg * 2))
         (snd (process_batch cfg env (take (nat (maxUsersPerBatch cfg)) (drop (nat i) us))
                 (r, emit (LogBatch (i div maxUsersPerBatch cfg + 1)
                            (- ((- int (length us)) div maxUsersPerBatch cfg))) w))))"
  using assms
  by (subst batches.simps) (simp add: Let_def js_slice_batch)

lemma batches_unfold_last:
  assumes "i < int (length us)" and "0 \<le> i" and "0 < maxUsersPerBatch cfg"
    and "\<not> i + maxUsersPerBatch cfg < int (length us)"
  shows "batches cfg env us i (r, w) =
    Some (process_batch cfg env (drop (nat i) us)
            (r, emit (LogBatch (i div maxUsersPerBatch cfg + 1)
                       (- ((- int (length us)) div maxUsersPerBatch cfg))) w))"
proof -
  have "take (nat (maxUsersPerBatch cfg)) (drop (nat i) us) = drop (nat i) us"
    using assms by simp
  moreover have "batches cfg env us (i + maxUsersPerBatch cfg) st = Some st" for st
    using assms(4) by (subst batches.simps) simp
  ultimately show ?thesis
    using assms by (subst batches.simps) (simp add: Let_def js_slice_batch)
qed

text \<open>
  C6: with a batch size of 10, a run over 12 eligible recipients makes two batches, the
  first 10 recipients and then the other 2 (logged as batch 1 of 2 and batch 2 of 2). It
  sends one message after the other, in the order of the list, each followed by a pause
  of the delay between messages when that is positive, and between the two batches it
  pauses a further two times the delay, whatever the delay is (2000 ms for a delay of
  1000 ms). The outcomes are 12, those of the recipients in the order of the list.
\<close>

theorem twelve_recipients_two_batches:
  assumes "initialize (connect env) (the_bot w) = Inr b" and "botId b \<noteq> None"
    and "maxUsersPerBatch cfg = 10"
    and "length (getActiveUsersForGreeting (query_time env) (db w)) = 12"
  shows "\<exists>r w'. sendMorningGreetings cfg env w = Some (Inr r, w') \<and>
    trace w' = trace w @ [LogBatch 1 2] @
      concat (map (\<lambda>(u, e). MessageAdd (bitrix_id u) (greeting_text e u) generateKeyboard #
                     (if 0 < delayBetweenMessages cfg then [Sleep (delayBetweenMessages cfg)]
                      else []))
        (pair_up (steps env) 0 (take 10 (getActiveUsersForGreeting (query_time env) (db w))))) @
      [Sleep (delayBetweenMessages cfg * 2), LogBatch 2 2] @
      concat (map (\<lambda>(u, e). MessageAdd (bitrix_id u) (greeting_text e u) generateKeyboard #
                     (if 0 < delayBetweenMessages cfg then [Sleep (delayBetweenMessages cfg)]
                      else []))
        (pair_up (steps env) 10 (drop 10 (getActiveUsersForGreeting (query_time env) (db w))))) \<and>
    length (take 10 (getActiveUsersForGreeting (query_time env) (db w))) = 10 \<and>
    length (drop 10 (getActiveUsersForGreeting (query_time env) (db w))) = 2 \<and>
    length (outcomes r) = 12 \<and>
    map userId (outcomes r) = map bitrix_id (getActiveUsersForGreeting (query_time env) (db w))"
proof -
  define us where "us = getActiveUsersForGreeting (query_time env) (db w)"
  define w0 where "w0 = w\<lparr>the_bot := b\<rparr>"
  define r0 where "r0 = \<lparr>total_count = length us, sent = 0, errors = 0, details = Some []\<rparr>"
  define pause where "pause = delayBetweenMessages cfg * 2"
  define ev where "ev = (\<lambda>(u, e). MessageAdd (bitrix_id u) (greeting_text e u) generateKeyboard #
    (if 0 < delayBetweenMessages cfg then [Sleep (delayBetweenMessages cfg)] else []))"
  have len: "length us = 12"
    using assms(4) by (simp add: us_def)
  have ev: "(\<lambda>(u, e). step_events cfg e u) = ev"
    by (simp add: ev_def step_events_def fun_eq_iff)
  \<comment> \<open>the first batch\<close>
  have "botId (the_bot (emit (LogBatch 1 2) w0)) \<noteq> None" and "details r0 = Some []"
    using assms(2) by (simp_all add: emit_def w0_def r0_def)
  from process_batch_effect [OF this, of cfg "steps env" "take 10 us"]
  obtain r1 w1 where b1: "process_batch cfg (steps env) (take 10 us) (r0, emit (LogBatch 1 2) w0) = (r1, w1)"
    and bot1: "the_bot w1 = the_bot w0"
    and det1: "details r1 = Some (map (\<lambda>(u, e). outcome e u) (pair_up (steps env) 0 (take 10 us)))"
    and tr1: "trace w1 = trace w0 @ [LogBatch 1 2] @ concat (map ev (pair_up (steps env) 0 (take 10 us)))"
    unfolding ev by (auto simp: emit_def)
  \<comment> \<open>the second batch\<close>
  have "botId (the_bot (emit (LogBatch 2 2) (emit (Sleep pause) w1))) \<noteq> None"
    using assms(2) bot1 by (simp add: emit_def w0_def)
  from process_batch_effect [OF this det1, of cfg "steps env" "drop 10 us"]
  obtain r2 w2 where b2: "process_batch cfg (steps env) (drop 10 us)
        (r1, emit (LogBatch 2 2) (emit (Sleep pause) w1)) = (r2, w2)"
    and tr2: "trace w2 = trace w1 @ [Sleep pause, LogBatch 2 2] @
        concat (map ev (pair_up (steps env) 10 (drop 10 us)))"
    unfolding ev using len by (auto simp: emit_def)
  \<comment> \<open>the loop\<close>
  have "batches cfg (steps env) us 0 (r0, w0) =
      batches cfg (steps env) us 10 (r1, emit (Sleep pause) w1)"
    using batches_unfold_more [of 0 us cfg "steps env" r0 w0] len b1
    by (simp add: assms(3) pause_def)
  also have "\<dots> = Some (r2, w2)"
    using batches_unfold_last [of 10 us cfg "steps env" r1 "emit (Sleep pause) w1"] len b2
    by (simp add: assms(3))
  finally have loop: "batches cfg (steps env) us 0 (r0, w0) = Some (r2, w2)" .
  have "us \<noteq> []"
    using len by auto
  then have run: "sendMorningGreetings cfg env w = Some (Inr r2, saveGreetingStats r2 w2)"
    using assms(1,2) loop
    by (simp add: sendMorningGreetings_def us_def [symmetric] Let_def w0_def r0_def)
  have tr: "trace (saveGreetingStats r2 w2) = trace w @ [LogBatch 1 2] @
      concat (map ev (pair_up (steps env) 0 (take 10 us))) @ [Sleep pause, LogBatch 2 2] @
      concat (map ev (pair_up (steps env) 10 (drop 10 us)))"
    by (simp add: saveGreetingStats_def tr2 tr1 w0_def)
  \<comment> \<open>the outcomes\<close>
  have pos: "0 < maxUsersPerBatch cfg"
    by (simp add: assms(3))
  from run_effect [OF assms(1,2) pos] run
  have out: "outcomes r2 = map (\<lambda>(u, e). outcome e u) (pair_up (steps env) 0 us)"
    unfolding us_def by auto
  have "length (outcomes r2) = 12"
    by (simp add: out len)
  moreover have "map userId (outcomes r2) = map bitrix_id us"
    by (simp only: out map_userId_outcomes)
  ultimately have "length (outcomes r2) = 12" and "map userId (outcomes r2) = map bitrix_id us"
    by simp_all
  with run tr len show ?thesis
    unfolding us_def ev_def pause_def by auto
qed

theorem twelve_recipients_two_batches_witness:
  "initialize (connect first_rejected) (the_bot team) =
     Inr \<lparr>botId = Some ''42'', isInitialized = True\<rparr>
   \<and> botId \<lparr>botId = Some ''42'', isInitialized = True\<rparr> \<noteq> None
   \<and> maxUsersPerBatch default_bot_config = 10
   \<and> length (getActiveUsersForGreeting (query_time first_rejected) (db team)) = 12
   \<and> (\<exists>r w'. sendMorningGreetings default_bot_config first_rejected team = Some (Inr r, w') \<and>
    trace w' = trace team @ [LogBatch 1 2] @
      concat (map (\<lambda>(u, e). [MessageAdd (bitrix_id u) (greeting_text e u) generateKeyboard,
                               Sleep 1000])
        (pair_up (steps first_rejected) 0
           (take 10 (getActiveUsersForGreeting (query_time first_rejected) (db team))))) @
      [Sleep 2000, LogBatch 2 2] @
      concat (map (\<lambda>(u, e). [MessageAdd (bitrix_id u) (greeting_text e u) generateKeyboard,
                               Sleep 1000])
        (pair_up (steps first_rejected) 10
           (drop 10 (getActiveUsersForGreeting (query_time first_rejected) (db team))))) \<and>
    length (take 10 (getActiveUsersForGreeting (query_time first_rejected) (db team))) = 10 \<and>
    length (drop 10 (getActiveUsersForGreeting (query_time first_rejected) (db team))) = 2 \<and>
    length (outcomes r) = 12 \<and>
    map userId (outcomes r) =
      map bitrix_id (getActiveUsersForGreeting (query_time first_rejected) (db team)))"
proof -
  have i: "initialize (connect first_rejected) (the_bot team) =
      Inr \<lparr>botId = Some ''42'', isInitialized = True\<rparr>"
    by (simp add: initialize_def first_rejected_def team_def)
  have b: "botId \<lparr>botId = Some ''42'', isInitialized = True\<rparr> \<noteq> None"
    by simp
  have m: "maxUsersPerBatch default_bot_config = 10"
    and d: "delayBetweenMessages default_bot_config = 1000"
    by (simp_all add: default_bot_config_def)
  have due: "greeting_due now (colleague n)" for now n
    by (simp add: greeting_due_def colleague_def)
  have l: "length (getActiveUsersForGreeting (query_time first_rejected) (db team)) = 12"
    by (simp add: getActiveUsersForGreeting_def getUsersForMorningGreeting_def team_def due)
  have p: "(0 < (1000::int)) = True" "(1000::int) * 2 = 2000"
    by simp_all
  note concl = twelve_recipients_two_batches [OF i b m l, unfolded d p if_True]
  show ?thesis
    by (intro conjI i b m l concl)
qed

section \<open>The order of a run\<close>

text \<open>
  The order of the column \<^verbatim>\<open>name\<close>: NULL comes first, and two names compare byte
  by byte, a shorter name before its extensions.
\<close>

lemma name_order:
  "(None :: string option) \<le> x"
  "Some a \<le> (Some b :: string option) \<longleftrightarrow> a \<le> b"
  "\<not> Some a \<le> (None :: string option)"
  "([] :: string) \<le> s"
  "\<not> c # cs \<le> ([] :: string)"
  "c # cs \<le> d # ds \<longleftrightarrow> (of_char c :: nat) < of_char d \<or> c = d \<and> cs \<le> ds"
  by (simp_all add: less_char_def)

lemma eligible_mixed_names:
  "getActiveUsersForGreeting 1704175200 (db mixed_names) = [zed, zoya, dmitri]"
  by (simp add: getActiveUsersForGreeting_def getUsersForMorningGreeting_def mixed_names_def
      dmitri_def zoya_def zed_def greeting_due_def)

text \<open>
  C10, as stated, fails. The sequence is not in alphabetical order of the names the
  recipients are greeted by: a recipient with NULL in the column comes first whatever
  the first name is, and every name that starts with a capital comes before every name
  that starts with a small letter. Here the run greets Zed, then Zoya, then dmitri.
\<close>

theorem eligible_alphabetical_counterexample:
  "\<not> alphabetical (map display_name (getActiveUsersForGreeting 1704175200 (db mixed_names)))"
  unfolding eligible_mixed_names by code_simp

text \<open>
  C10, amended: the sequence handed to a run holds the eligible recipients of the
  store, each as often as the store has it, sorted in ascending order of the column
  \<^verbatim>\<open>name\<close> compared bytewise with NULL first (the order of \<open>name_order\<close>, not
  alphabetical order), whatever the order of insertion; a run that starts with a
  positive batch size attempts the recipients in that order and returns their outcomes
  in that order.
\<close>

theorem eligible_sorted_bytewise_and_processed_in_order:
  assumes "initialize (connect env) (the_bot w) = Inr b" and "botId b \<noteq> None"
    and "0 < maxUsersPerBatch cfg"
  shows "mset (getActiveUsersForGreeting (query_time env) (db w)) =
      mset (filter (greeting_due (query_time env)) (users (db w))) \<and>
    sorted (map name (getActiveUsersForGreeting (query_time env) (db w))) \<and>
    (\<exists>r w'. sendMorningGreetings cfg env w = Some (Inr r, w') \<and>
       attempted (trace w') =
         attempted (trace w) @ map bitrix_id (getActiveUsersForGreeting (query_time env) (db w)) \<and>
       map userId (outcomes r) =
         map bitrix_id (getActiveUsersForGreeting (query_time env) (db w)))"
proof -
  define us where "us = getActiveUsersForGreeting (query_time env) (db w)"
  have content: "mset us = mset (filter (greeting_due (query_time env)) (users (db w)))"
    by (simp add: us_def getActiveUsersForGreeting_def getUsersForMorningGreeting_def)
  have order: "sorted (map name us)"
    by (simp add: us_def getActiveUsersForGreeting_def getUsersForMorningGreeting_def)
  from run_effect [OF assms]
  obtain r w' where run: "sendMorningGreetings cfg env w = Some (Inr r, w')"
    and out: "outcomes r = map (\<lambda>(u, e). outcome e u) (pair_up (steps env) 0 us)"
    and att: "attempted (trace w') = attempted (trace w) @ map bitrix_id us"
    unfolding us_def by blast
  have "map userId (outcomes r) = map bitrix_id us"
    by (simp only: out map_userId_outcomes)
  with content order run att show ?thesis
    unfolding us_def by blast
qed

theorem eligible_sorted_bytewise_and_processed_in_order_witness:
  "initialize (connect outage) (the_bot mixed_names) =
     Inr \<lparr>botId = Some ''42'', isInitialized = True\<rparr>
   \<and> botId \<lparr>botId = Some ''42'', isInitialized = True\<rparr> \<noteq> None
   \<and> 0 < maxUsersPerBatch default_bot_config
   \<and> users (db mixed_names) = [dmitri, zoya, zed]
   \<and> getActiveUsersForGreeting (query_time outage) (db mixed_names) = [zed, zoya, dmitri]
   \<and> mset [zed, zoya, dmitri] =
       mset (filter (greeting_due (query_time outage)) (users (db mixed_names)))
   \<and> sorted (map name [zed, zoya, dmitri])
   \<and> (\<exists>r w'. sendMorningGreetings default_bot_config outage mixed_names = Some (Inr r, w') \<and>
        attempted (trace w') = [''13'', ''11'', ''12''] \<and>
        map userId (outcomes r) = [''13'', ''11'', ''12''])"
proof -
  have i: "initialize (connect outage) (the_bot mixed_names) =
      Inr \<lparr>botId = Some ''42'', isInitialized = True\<rparr>"
    by (simp add: initialize_def outage_def mixed_names_def)
  have b: "botId \<lparr>botId = Some ''42'', isInitialized = True\<rparr> \<noteq> None"
    by simp
  have p: "0 < maxUsersPerBatch default_bot_config"
    by (simp add: default_bot_config_def)
  have t: "users (db mixed_names) = [dmitri, zoya, zed]"
    by (simp add: mixed_names_def)
  have us: "getActiveUsersForGreeting (query_time outage) (db mixed_names) = [zed, zoya, dmitri]"
    using eligible_mixed_names by (simp add: outage_def)
  have tr: "attempted (trace mixed_names) = []"
    by (simp add: mixed_names_def)
  have ids: "map bitrix_id [zed, zoya, dmitri] = [''13'', ''11'', ''12'']"
    by (simp add: zed_def zoya_def dmitri_def)
  note concl = eligible_sorted_bytewise_and_processed_in_order [OF i b p,
      unfolded us tr ids append_Nil]
  show ?thesis
    by (intro conjI i b p t us concl [THEN conjunct1] concl [THEN conjunct2, THEN conjunct1]
        concl [THEN conjunct2, THEN conjunct2])
qed

section \<open>The Trigger Scheduler\<close>

lemma length_stop_task [simp]: "length (stop_task j ts) = length ts"
  by (simp add: stop_task_def)

lemma nth_stop_task:
  "i < length ts \<Longrightarrow>
   stop_task j ts ! i = (if i = j then (ts ! i)\<lparr>running := False\<rparr> else ts ! i)"
  by (simp add: stop_task_def nth_list_update)

lemma running_stop_task:
  "i < length ts \<Longrightarrow> running (stop_task j ts ! i) \<longleftrightarrow> running (ts ! i) \<and> i \<noteq> j"
  by (simp add: nth_stop_task)

lemma registered_as_stop_task [simp]:
  "i < length ts \<Longrightarrow> registered_as (stop_task j ts ! i) = registered_as (ts ! i)"
  by (simp add: nth_stop_task)

lemma length_fold_stop [simp]:
  "length (fold (\<lambda>(nm, j). stop_task j) al ts) = length ts"
  by (induction al arbitrary: ts) (simp_all add: split_beta)

lemma running_fold_stop:
  "i < length ts \<Longrightarrow>
   running (fold (\<lambda>(nm, j). stop_task j) al ts ! i) \<longleftrightarrow> running (ts ! i) \<and> i \<notin> snd ` set al"
proof (induction al arbitrary: ts)
  case Nil
  then show ?case by simp
next
  case (Cons a al)
  obtain nm j where a: "a = (nm, j)"
    by (cases a)
  from Cons.prems have "i < length (stop_task j ts)"
    by simp
  from Cons.IH [OF this] Cons.prems show ?case
    by (auto simp: a running_stop_task)
qed

lemma recorded_new: "recorded new_scheduler"
  by (simp add: recorded_def new_scheduler_def)

lemma recorded_scheduleJob:
  assumes "recorded s"
  shows "recorded (snd (scheduleJob accepts nm e h s))"
proof -
  define ts where "ts = (case map_of (jobs s) nm of Some j \<Rightarrow> stop_task j (tasks s) | None \<Rightarrow> tasks s)"
  have len: "length ts = length (tasks s)"
    by (simp add: ts_def split: option.split)
  have old: "map_of (jobs s) (registered_as (tasks s ! i)) = Some i \<and>
      registered_as (ts ! i) = registered_as (tasks s ! i) \<and>
      registered_as (tasks s ! i) \<noteq> nm"
    if "i < length (tasks s)" and "running (ts ! i)" for i
  proof -
    from that have run: "running (tasks s ! i)"
      by (auto simp: ts_def running_stop_task split: option.splits)
    with assms that(1) have rec: "map_of (jobs s) (registered_as (tasks s ! i)) = Some i"
      by (simp add: recorded_def)
    have "registered_as (tasks s ! i) \<noteq> nm"
    proof
      assume "registered_as (tasks s ! i) = nm"
      with rec have "map_of (jobs s) nm = Some i"
        by simp
      with that show False
        by (simp add: ts_def running_stop_task)
    qed
    moreover from that(1) have "registered_as (ts ! i) = registered_as (tasks s ! i)"
      by (simp add: ts_def split: option.split)
    ultimately show ?thesis
      using rec by simp
  qed
  show ?thesis
  proof (cases "accepts e")
    case False
    then have "snd (scheduleJob accepts nm e h s) = s\<lparr>tasks := ts\<rparr>"
      by (simp add: scheduleJob_def ts_def Let_def split: option.split)
    with old len show ?thesis
      by (auto simp: recorded_def)
  next
    case True
    then have s': "snd (scheduleJob accepts nm e h s) =
        s\<lparr>tasks := ts @ [\<lparr>expression = e, handler = h, running = True, registered_as = nm\<rparr>],
          jobs := AList.update nm (length ts) (jobs s)\<rparr>"
      by (simp add: scheduleJob_def ts_def Let_def split: option.split)
    show ?thesis
      unfolding s' recorded_def
    proof (intro allI impI)
      fix i
      assume i: "i < length (tasks (s\<lparr>tasks := ts @ [\<lparr>expression = e, handler = h, running = True,
            registered_as = nm\<rparr>], jobs := AList.update nm (length ts) (jobs s)\<rparr>))"
        and r: "running (tasks (s\<lparr>tasks := ts @ [\<lparr>expression = e, handler = h, running = True,
            registered_as = nm\<rparr>], jobs := AList.update nm (length ts) (jobs s)\<rparr>) ! i)"
      show "map_of (jobs (s\<lparr>tasks := ts @ [\<lparr>expression = e, handler = h, running = True,
            registered_as = nm\<rparr>], jobs := AList.update nm (length ts) (jobs s)\<rparr>))
          (registered_as (tasks (s\<lparr>tasks := ts @ [\<lparr>expression = e, handler = h, running = True,
            registered_as = nm\<rparr>], jobs := AList.update nm (length ts) (jobs s)\<rparr>) ! i)) = Some i"
      proof (cases "i < length ts")
        case True
        with r have "running (ts ! i)"
          by (simp add: nth_append)
        from old [OF _ this] True len show ?thesis
          by (simp add: nth_append update_conv')
      next
        case False
        with i have "i = length ts"
          by simp
        then show ?thesis
          by (simp add: update_conv')
      qed
    qed
  qed
qed

lemma recorded_stopJob:
  assumes "recorded s"
  shows "recorded (stopJob nm s)"
proof (cases "map_of (jobs s) nm")
  case None
  with assms show ?thesis
    by (simp add: stopJob_def)
next
  case (Some j)
  have "map_of (AList.delete nm (jobs s)) (registered_as (tasks s ! i)) = Some i"
    if "i < length (tasks s)" and "running (tasks s ! i)" and "i \<noteq> j" for i
  proof -
    from assms that have rec: "map_of (jobs s) (registered_as (tasks s ! i)) = Some i"
      by (simp add: recorded_def)
    with Some that(3) have "registered_as (tasks s ! i) \<noteq> nm"
      by auto
    with rec show ?thesis
      by (simp add: delete_conv')
  qed
  then show ?thesis
    by (simp add: stopJob_def Some recorded_def running_stop_task)
qed

lemma recorded_stopAll:
  assumes "recorded s"
  shows "recorded (stopAll s)"
proof -
  have "\<not> running (fold (\<lambda>(nm, j). stop_task j) (jobs s) (tasks s) ! i)"
    if "i < length (tasks s)" for i
  proof
    assume "running (fold (\<lambda>(nm, j). stop_task j) (jobs s) (tasks s) ! i)"
    with that have "running (tasks s ! i)" and out: "i \<notin> snd ` set (jobs s)"
      by (simp_all add: running_fold_stop)
    with assms that have "map_of (jobs s) (registered_as (tasks s ! i)) = Some i"
      by (simp add: recorded_def)
    then have "(registered_as (tasks s ! i), i) \<in> set (jobs s)"
      by (rule map_of_SomeD)
    then have "i \<in> snd ` set (jobs s)"
      by force
    with out show False
      by simp
  qed
  then show ?thesis
    by (simp add: stopAll_def recorded_def)
qed

lemma reachable_recorded: "reachable accepts s \<Longrightarrow> recorded s"
proof (induction rule: reachable.induct)
  case new
  show ?case by (rule recorded_new)
next
  case (schedule s nm e h)
  then show ?case by (simp add: recorded_scheduleJob)
next
  case (stop s nm)
  then show ?case by (simp add: recorded_stopJob)
next
  case (stop_all s)
  then show ?case by (simp add: recorded_stopAll)
next
  case (started s)
  then show ?case by (simp add: recorded_def)
qed

lemma length_at_most_one:
  assumes "distinct xs" and "\<And>x y. x \<in> set xs \<Longrightarrow> y \<in> set xs \<Longrightarrow> x = y"
  shows "length xs \<le> 1"
proof (cases xs)
  case Nil
  then show ?thesis by simp
next
  case (Cons a ys)
  have "ys = []"
  proof (cases ys)
    case Nil
    then show ?thesis by simp
  next
    case (Cons c zs)
    with \<open>xs = a # ys\<close> assms(2) [of a c] assms(1) show ?thesis
      by simp
  qed
  with Cons show ?thesis by simp
qed

lemma recorded_live_at_most_one:
  assumes "recorded s"
  shows "length (live_triggers s nm) \<le> 1"
proof (rule length_at_most_one)
  show "distinct (live_triggers s nm)"
    by (simp add: live_triggers_def)
  fix x y
  assume "x \<in> set (live_triggers s nm)" and "y \<in> set (live_triggers s nm)"
  with assms have "map_of (jobs s) nm = Some x" and "map_of (jobs s) nm = Some y"
    by (auto simp: live_triggers_def recorded_def)
  then show "x = y"
    by simp
qed

lemma scheduleJob_accepted:
  assumes "recorded s" and "accepts e"
  shows "\<exists>ts. tasks (snd (scheduleJob accepts nm e h s)) =
      ts @ [\<lparr>expression = e, handler = h, running = True, registered_as = nm\<rparr>] \<and>
    length ts = length (tasks s) \<and>
    (\<forall>i<length ts. running (ts ! i) \<longrightarrow> registered_as (ts ! i) \<noteq> nm)"
proof -
  define ts where "ts = (case map_of (jobs s) nm of Some j \<Rightarrow> stop_task j (tasks s) | None \<Rightarrow> tasks s)"
  have len: "length ts = length (tasks s)"
    by (simp add: ts_def split: option.split)
  have "registered_as (ts ! i) \<noteq> nm" if "i < length ts" and "running (ts ! i)" for i
  proof
    assume own: "registered_as (ts ! i) = nm"
    from that len have i: "i < length (tasks s)"
      by simp
    with that(2) have run: "running (tasks s ! i)"
      by (auto simp: ts_def running_stop_task split: option.splits)
    from i own have "registered_as (tasks s ! i) = nm"
      by (simp add: ts_def split: option.splits)
    with assms(1) i run have "map_of (jobs s) nm = Some i"
      by (auto simp: recorded_def)
    with that(2) i show False
      by (simp add: ts_def running_stop_task)
  qed
  moreover from assms(2) have "tasks (snd (scheduleJob accepts nm e h s)) =
      ts @ [\<lparr>expression = e, handler = h, running = True, registered_as = nm\<rparr>]"
    by (simp add: scheduleJob_def ts_def Let_def split: option.split)
  ultimately show ?thesis
    using len by blast
qed

lemma live_triggers_after_accepted:
  assumes "recorded s" and "accepts e"
  shows "live_triggers (snd (scheduleJob accepts nm e h s)) nm = [length (tasks s)]"
proof -
  from scheduleJob_accepted [where accepts = accepts and e = e and s = s and nm = nm and h = h, OF assms]
  obtain ts where ts: "tasks (snd (scheduleJob accepts nm e h s)) =
      ts @ [\<lparr>expression = e, handler = h, running = True, registered_as = nm\<rparr>]"
    and len: "length ts = length (tasks s)"
    and quiet: "\<And>i. i < length ts \<Longrightarrow> running (ts ! i) \<Longrightarrow> registered_as (ts ! i) \<noteq> nm"
    by blast
  have "filter (\<lambda>j. running ((ts @ [\<lparr>expression = e, handler = h, running = True,
        registered_as = nm\<rparr>]) ! j) \<and>
      registered_as ((ts @ [\<lparr>expression = e, handler = h, running = True,
        registered_as = nm\<rparr>]) ! j) = nm) [0..<length ts] = []"
    using quiet by (auto simp: filter_empty_conv nth_append)
  then show ?thesis
    by (simp add: live_triggers_def ts len [symmetric])
qed

lemma fire_after_accepted:
  assumes "recorded s" and "accepts e" and "due e"
  shows "filter (\<lambda>(n, h). n = nm) (fire due (snd (scheduleJob accepts nm e h s))) = [(nm, h)]"
proof -
  from scheduleJob_accepted [where accepts = accepts and e = e and s = s and nm = nm and h = h, OF assms(1,2)]
  obtain ts where ts: "tasks (snd (scheduleJob accepts nm e h s)) =
      ts @ [\<lparr>expression = e, handler = h, running = True, registered_as = nm\<rparr>]"
    and quiet: "\<And>i. i < length ts \<Longrightarrow> running (ts ! i) \<Longrightarrow> registered_as (ts ! i) \<noteq> nm"
    by blast
  have "registered_as t \<noteq> nm" if "t \<in> set ts" and "running t" for t
  proof -
    from that(1) obtain i where "i < length ts" and "ts ! i = t"
      by (auto simp: in_set_conv_nth)
    with that(2) quiet [of i] show ?thesis
      by simp
  qed
  then have "filter (\<lambda>t. (running t \<and> due (expression t)) \<and> registered_as t = nm) ts = []"
    by (auto simp: filter_empty_conv)
  then show ?thesis
    using assms(3) by (simp add: fire_def ts filter_map comp_def split_beta)
qed

text \<open>
  C3: in every state the scheduler can reach, a name has at most one live trigger. After
  two registrations under the same name that the cron library accepts, the only live
  trigger of the name is the second task: the first was stopped. At an occurrence of the
  second expression the triggers of the name call one handler, the second, once.
\<close>

theorem one_live_trigger_per_name:
  assumes "reachable accepts s"
  shows "length (live_triggers s nm) \<le> 1 \<and>
    (accepts e1 \<and> accepts e2 \<and> due e2 \<longrightarrow>
       live_triggers (snd (scheduleJob accepts nm e1 h1 s)) nm = [length (tasks s)] \<and>
       live_triggers
         (snd (scheduleJob accepts nm e2 h2 (snd (scheduleJob accepts nm e1 h1 s)))) nm =
         [Suc (length (tasks s))] \<and>
       filter (\<lambda>(n, h). n = nm)
         (fire due (snd (scheduleJob accepts nm e2 h2 (snd (scheduleJob accepts nm e1 h1 s))))) =
         [(nm, h2)])"
proof -
  from assms have rec: "recorded s"
    by (rule reachable_recorded)
  then have rec1: "recorded (snd (scheduleJob accepts nm e1 h1 s))"
    by (rule recorded_scheduleJob)
  have len1: "length (tasks (snd (scheduleJob accepts nm e1 h1 s))) = Suc (length (tasks s))"
    if "accepts e1"
    using scheduleJob_accepted [where accepts = accepts and e = e1 and s = s and nm = nm and h = h1, OF rec that] by auto
  show ?thesis
    using recorded_live_at_most_one [OF rec, of nm]
      live_triggers_after_accepted [where accepts = accepts and e = e1 and nm = nm and h = h1, OF rec]
      live_triggers_after_accepted [where accepts = accepts and e = e2 and nm = nm and h = h2, OF rec1]
      fire_after_accepted [where accepts = accepts and e = e2 and due = due and nm = nm and h = h2, OF rec1]
      len1
    by simp
qed

theorem one_live_trigger_per_name_witness:
  "reachable (\<lambda>e. True) (new_scheduler :: nat scheduler)
   \<and> length (live_triggers (new_scheduler :: nat scheduler) ''morning_greeting'') \<le> 1
   \<and> (\<lambda>e. True) ''0 9 * * 1,2,3,4,5'' \<and> (\<lambda>e. True) ''30 8 * * 1,2,3,4,5''
   \<and> (\<lambda>e. e = ''30 8 * * 1,2,3,4,5'') ''30 8 * * 1,2,3,4,5''
   \<and> live_triggers
        (snd (scheduleJob (\<lambda>e. True) ''morning_greeting'' ''0 9 * * 1,2,3,4,5'' (1::nat)
           new_scheduler))
        ''morning_greeting'' = [0]
   \<and> live_triggers
        (snd (scheduleJob (\<lambda>e. True) ''morning_greeting'' ''30 8 * * 1,2,3,4,5'' 2
           (snd (scheduleJob (\<lambda>e. True) ''morning_greeting'' ''0 9 * * 1,2,3,4,5'' (1::nat)
              new_scheduler))))
        ''morning_greeting'' = [1]
   \<and> filter (\<lambda>(n, h). n = ''morning_greeting'')
        (fire (\<lambda>e. e = ''30 8 * * 1,2,3,4,5'')
           (snd (scheduleJob (\<lambda>e. True) ''morning_greeting'' ''30 8 * * 1,2,3,4,5'' 2
              (snd (scheduleJob (\<lambda>e. True) ''morning_greeting'' ''0 9 * * 1,2,3,4,5'' (1::nat)
                 new_scheduler))))) =
      [(''morning_greeting'', 2)]"
proof -
  have r: "reachable (\<lambda>e. True) (new_scheduler :: nat scheduler)"
    by (rule reachable.new)
  have t: "length (tasks (new_scheduler :: nat scheduler)) = 0"
    by (simp add: new_scheduler_def)
  show ?thesis
    using r one_live_trigger_per_name [OF r, where nm = "''morning_greeting''"
      and ?e1.0 = "''0 9 * * 1,2,3,4,5''" and ?e2.0 = "''30 8 * * 1,2,3,4,5''"
      and due = "\<lambda>e. e = ''30 8 * * 1,2,3,4,5''" and ?h1.0 = 1 and ?h2.0 = 2]
    by (simp add: t)
qed

section \<open>Edge cases\<close>

text \<open>
  \<^verbatim>\<open>scheduleJob\<close> checks nothing itself: it registers a trigger exactly when the
  cron library takes the expression, and otherwise leaves the map as it was and starts
  no task.
\<close>

lemma scheduleJob_registers_iff_accepted:
  "fst (scheduleJob accepts nm e h s) \<longleftrightarrow> accepts e"
  by (simp add: scheduleJob_def Let_def)

lemma scheduleJob_rejected:
  assumes "\<not> accepts e"
  shows "jobs (snd (scheduleJob accepts nm e h s)) = jobs s"
    and "length (tasks (snd (scheduleJob accepts nm e h s))) = length (tasks s)"
    and "\<And>j. j < length (tasks s) \<Longrightarrow> running (tasks (snd (scheduleJob accepts nm e h s)) ! j) \<Longrightarrow>
          running (tasks s ! j)"
  using assms by (auto simp: scheduleJob_def Let_def running_stop_task split: option.splits)

end
